theory Spec2Isabelle
  imports Main "HOL-Library.AList"
begin

section \<open>The popup document\<close>

text \<open>
  \<^verbatim>\<open>browser_action.js\<close> runs inside the popup page of the extension and works on that
  page's document through jQuery. The page itself is not part of the sources, so the
  document is a parameter of every operation: a forest of nodes (the children of the
  document root, in document order).

  An element carries what the script reads or writes: its tag name (upper case, as the
  DOM reports it), its \<^verbatim>\<open>id\<close>, its classes, its other attributes, its inline style, whether
  jQuery's \<^verbatim>\<open>show()\<close> or \<^verbatim>\<open>hide()\<close> was the last to set its display, and the click
  handlers bound to it. A handler is one of the four anonymous functions that the script
  binds to click events.

  The functions of the script keep their names, without the underscore that ends the
  private ones.
\<close>

datatype error = TypeError

datatype handler = AddEventsClick | ViewAgendaClick | SyncNowClick | EventDivClick

record element =
  tagName :: string
  ident :: "string option"
  classes :: "string list"
  attrs :: "(string \<times> string) list"
  styles :: "(string \<times> string) list"
  shown :: bool
  handlers :: "handler list"

datatype node = Element element "node list" | Text string

type_synonym document = "node list"

type_synonym path = "nat list"

text \<open>\<^verbatim>\<open>$('<tag>')\<close>: a new element with nothing set.\<close>

definition create :: "string \<Rightarrow> element" where
  "create tag = \<lparr>tagName = tag, ident = None, classes = [], attrs = [], styles = [],
                 shown = True, handlers = []\<rparr>"

subsection \<open>jQuery setters on one element\<close>

definition addClass :: "string \<Rightarrow> element \<Rightarrow> element" where
  "addClass c e = (if c \<in> set (classes e) then e else e\<lparr>classes := classes e @ [c]\<rparr>)"

definition removeClass :: "string \<Rightarrow> element \<Rightarrow> element" where
  "removeClass c e = e\<lparr>classes := filter (\<lambda>c'. c' \<noteq> c) (classes e)\<rparr>"

definition hide :: "element \<Rightarrow> element" where
  "hide e = e\<lparr>shown := False\<rparr>"

definition show_elem :: "element \<Rightarrow> element" where
  "show_elem e = e\<lparr>shown := True\<rparr>"

text \<open>
  \<^verbatim>\<open>.attr({name: value})\<close> and \<^verbatim>\<open>.css({name: value})\<close> with a value that is
  \<^verbatim>\<open>undefined\<close> set nothing, so the value is optional here.
\<close>

definition attr_get :: "string \<Rightarrow> element \<Rightarrow> string option" where
  "attr_get name e = map_of (attrs e) name"

definition attr_set :: "string \<Rightarrow> string option \<Rightarrow> element \<Rightarrow> element" where
  "attr_set name v e =
     (case v of None \<Rightarrow> e | Some s \<Rightarrow> e\<lparr>attrs := AList.update name s (attrs e)\<rparr>)"

definition css_set :: "string \<Rightarrow> string option \<Rightarrow> element \<Rightarrow> element" where
  "css_set name v e =
     (case v of None \<Rightarrow> e | Some s \<Rightarrow> e\<lparr>styles := AList.update name s (styles e)\<rparr>)"

definition bind_click :: "handler \<Rightarrow> element \<Rightarrow> element" where
  "bind_click h e = e\<lparr>handlers := handlers e @ [h]\<rparr>"

definition hasClass :: "string \<Rightarrow> element \<Rightarrow> bool" where
  "hasClass c e = (c \<in> set (classes e))"

text \<open>\<^verbatim>\<open>.text(s)\<close> with a string, and \<^verbatim>\<open>.text(undefined)\<close>, which only reads.\<close>

definition text_set :: "string option \<Rightarrow> node list \<Rightarrow> node list" where
  "text_set v cs = (case v of None \<Rightarrow> cs | Some s \<Rightarrow> [Text s])"

text \<open>
  \<^verbatim>\<open>.html(s)\<close> with a string replaces the children by what the browser's HTML parser makes
  of \<^verbatim>\<open>s\<close>: text, and elements with their ids and classes, which selectors find like
  any other element. The parser is a parameter. \<^verbatim>\<open>.html(undefined)\<close> only reads.
\<close>

definition html_set :: "(string \<Rightarrow> node list) \<Rightarrow> string option \<Rightarrow> node list \<Rightarrow> node list" where
  "html_set parse v cs = (case v of None \<Rightarrow> cs | Some s \<Rightarrow> parse s)"

subsection \<open>Selections\<close>

text \<open>
  A class or attribute selector matches every element of the document that satisfies it,
  and a setter called on the selection changes each of them.
\<close>

fun map_elements :: "(element \<Rightarrow> element) \<Rightarrow> node \<Rightarrow> node" where
  "map_elements f (Element e cs) = Element (f e) (map (map_elements f) cs)"
| "map_elements f (Text t) = Text t"

definition set_all :: "(element \<Rightarrow> bool) \<Rightarrow> (element \<Rightarrow> element) \<Rightarrow> document \<Rightarrow> document" where
  "set_all sel f d = map (map_elements (\<lambda>e. if sel e then f e else e)) d"

text \<open>
  \<^verbatim>\<open>$('#x')\<close> is the first element in document order whose id is \<^verbatim>\<open>x\<close>, or the empty
  selection. An element is named by its path: the child indices from the document root.
\<close>

definition shift :: "path \<Rightarrow> path" where
  "shift p = (case p of [] \<Rightarrow> [] | i # q \<Rightarrow> Suc i # q)"

fun find_id :: "string \<Rightarrow> document \<Rightarrow> path option" where
  "find_id x [] = None"
| "find_id x (Element e cs # ns) =
     (if ident e = Some x then Some [0]
      else case find_id x cs of
             Some p \<Rightarrow> Some (0 # p)
           | None \<Rightarrow> map_option shift (find_id x ns))"
| "find_id x (Text t # ns) = map_option shift (find_id x ns)"

fun node_at :: "path \<Rightarrow> document \<Rightarrow> node option" where
  "node_at [] ns = None"
| "node_at [i] ns = (if i < length ns then Some (ns ! i) else None)"
| "node_at (i # p) ns =
     (if i < length ns
      then (case ns ! i of Element e cs \<Rightarrow> node_at p cs | _ \<Rightarrow> None)
      else None)"

definition elem_at :: "path \<Rightarrow> document \<Rightarrow> element option" where
  "elem_at p d = (case node_at p d of Some (Element e cs) \<Rightarrow> Some e | _ \<Rightarrow> None)"

definition children_at :: "path \<Rightarrow> document \<Rightarrow> node list" where
  "children_at p d = (case node_at p d of Some (Element e cs) \<Rightarrow> cs | _ \<Rightarrow> [])"

fun update_at :: "path \<Rightarrow> (node \<Rightarrow> node) \<Rightarrow> document \<Rightarrow> document" where
  "update_at [] f ns = ns"
| "update_at [i] f ns = (if i < length ns then ns[i := f (ns ! i)] else ns)"
| "update_at (i # p) f ns =
     (if i < length ns
      then (case ns ! i of
              Element e cs \<Rightarrow> ns[i := Element e (update_at p f cs)]
            | _ \<Rightarrow> ns)
      else ns)"

definition on_element :: "(element \<Rightarrow> element) \<Rightarrow> node \<Rightarrow> node" where
  "on_element f n = (case n of Element e cs \<Rightarrow> Element (f e) cs | _ \<Rightarrow> n)"

definition append_children :: "node list \<Rightarrow> node \<Rightarrow> node" where
  "append_children new n = (case n of Element e cs \<Rightarrow> Element e (cs @ new) | _ \<Rightarrow> n)"

definition set_id :: "string \<Rightarrow> (element \<Rightarrow> element) \<Rightarrow> document \<Rightarrow> document" where
  "set_id x f d = (case find_id x d of None \<Rightarrow> d | Some p \<Rightarrow> update_at p (on_element f) d)"

definition append_id :: "string \<Rightarrow> node list \<Rightarrow> document \<Rightarrow> document" where
  "append_id x new d =
     (case find_id x d of None \<Rightarrow> d | Some p \<Rightarrow> update_at p (append_children new) d)"

text \<open>All element nodes of a subtree, in document order.\<close>

fun elements_of :: "node \<Rightarrow> node list" where
  "elements_of (Element e cs) = Element e cs # concat (map elements_of cs)"
| "elements_of (Text t) = []"

definition all_elements :: "document \<Rightarrow> node list" where
  "all_elements d = concat (map elements_of d)"

section \<open>The platform, the date and time utility, and the events\<close>

text \<open>
  The script calls things it does not define: Chrome's \<^verbatim>\<open>chrome.i18n.getMessage\<close>,
  the parser \<^verbatim>\<open>utils.fromIso8601\<close>, the methods of the date objects that the parser
  returns, and the browser's HTML parser behind \<^verbatim>\<open>.html(...)\<close>. They are parameters of the
  model; \<^verbatim>\<open>'m\<close> is the type of the date objects. The date parser's result is tested with
  \<^verbatim>\<open>!end\<close>, so it may be absent.
\<close>

record 'm env =
  getMessage :: "string \<Rightarrow> string"
  fromIso8601 :: "string option \<Rightarrow> 'm option"
  hours :: "'m \<Rightarrow> int"
  minutes :: "'m \<Rightarrow> int"
  set_hours :: "int \<Rightarrow> 'm \<Rightarrow> 'm"
  set_minutes :: "int \<Rightarrow> 'm \<Rightarrow> 'm"
  set_seconds :: "int \<Rightarrow> 'm \<Rightarrow> 'm"
  diff :: "'m \<Rightarrow> 'm \<Rightarrow> string \<Rightarrow> int"
  format :: "'m \<Rightarrow> string \<Rightarrow> string"
  parseHTML :: "string \<Rightarrow> node list"

text \<open>
  An event as the background page sends it. A field that the script reads may be missing
  (\<^verbatim>\<open>undefined\<close>); \<^verbatim>\<open>ev_end\<close> is the field \<^verbatim>\<open>end\<close>.
\<close>

record feed_info =
  color :: "string option"
  feed_title :: "string option"

record calendar_event =
  title :: "string option"
  start :: "string option"
  ev_end :: "string option"
  url :: "string option"
  gcal_url :: "string option"
  location :: "string option"
  feed :: "feed_info option"

text \<open>
  What the script asks of the browser, in the order of the calls. A request names the
  function that will receive the answer.
\<close>

datatype callback = ShowEventsFromFeed | DetectedEventsCallback | BadgeTextCallback

datatype effect =
    SendMessage string callback
  | GetBadgeText callback
  | TabsCreate "string option"

record popup =
  dom :: document
  effects :: "effect list"

text \<open>
  An exception leaves the popup as it was when it was thrown: \<^verbatim>\<open>Inl (e, s)\<close> is the
  exception \<^verbatim>\<open>e\<close> thrown in state \<^verbatim>\<open>s\<close>, \<^verbatim>\<open>Inr s\<close> a normal return.
\<close>

type_synonym result = "error \<times> popup + popup"

definition sendMessage :: "string \<Rightarrow> callback \<Rightarrow> popup \<Rightarrow> popup" where
  "sendMessage method cb s = s\<lparr>effects := effects s @ [SendMessage method cb]\<rparr>"

definition CALENDAR_UI_URL :: string where
  "CALENDAR_UI_URL = ''https://www.google.com/calendar/''"

section \<open>Filling in the localized messages\<close>

text \<open>
  \<^verbatim>\<open>$('.i18n').each(...)\<close> visits the elements selected at the start, in document order.
  \<^verbatim>\<open>$(this).attr('id').toString()\<close> throws on an element without an id. \<^verbatim>\<open>.text(...)\<close>
  replaces the children of the element, but the former children stay in the selection and
  are still visited: what is done to them is not seen in the document, except that a
  missing id among them throws as well.
\<close>

fun each_i18n :: "(string \<Rightarrow> string) \<Rightarrow> document \<Rightarrow> error \<times> document + document" where
  "each_i18n gm [] = Inr []"
| "each_i18n gm (Element e cs # ns) =
     (if hasClass ''i18n'' e then
        (case ident e of
           None \<Rightarrow> Inl (TypeError, Element e cs # ns)
         | Some i \<Rightarrow>
             if tagName e = ''IMG'' then
               (case each_i18n gm cs of
                  Inl (err, cs') \<Rightarrow>
                    Inl (err, Element (attr_set ''title'' (Some (gm i)) e) cs' # ns)
                | Inr cs' \<Rightarrow>
                    (case each_i18n gm ns of
                       Inl (err, ns') \<Rightarrow>
                         Inl (err, Element (attr_set ''title'' (Some (gm i)) e) cs' # ns')
                     | Inr ns' \<Rightarrow>
                         Inr (Element (attr_set ''title'' (Some (gm i)) e) cs' # ns')))
             else
               (case each_i18n gm cs of
                  Inl (err, cs') \<Rightarrow> Inl (err, Element e (text_set (Some (gm i)) cs) # ns)
                | Inr cs' \<Rightarrow>
                    (case each_i18n gm ns of
                       Inl (err, ns') \<Rightarrow>
                         Inl (err, Element e (text_set (Some (gm i)) cs) # ns')
                     | Inr ns' \<Rightarrow> Inr (Element e (text_set (Some (gm i)) cs) # ns'))))
      else
        (case each_i18n gm cs of
           Inl (err, cs') \<Rightarrow> Inl (err, Element e cs' # ns)
         | Inr cs' \<Rightarrow>
             (case each_i18n gm ns of
                Inl (err, ns') \<Rightarrow> Inl (err, Element e cs' # ns')
              | Inr ns' \<Rightarrow> Inr (Element e cs' # ns'))))"
| "each_i18n gm (Text t # ns) =
     (case each_i18n gm ns of
        Inl (err, ns') \<Rightarrow> Inl (err, Text t # ns')
      | Inr ns' \<Rightarrow> Inr (Text t # ns'))"

definition fillMessages :: "'m env \<Rightarrow> popup \<Rightarrow> result" where
  "fillMessages env s =
     (case each_i18n (getMessage env) (dom s) of
        Inl (err, d) \<Rightarrow> Inl (err, s\<lparr>dom := d\<rparr>)
      | Inr d \<Rightarrow>
          Inr (s\<lparr>dom := set_all (\<lambda>e. attr_get ''data-href'' e = Some ''calendar_ui_url'')
                                 (attr_set ''href'' (Some CALENDAR_UI_URL)) d\<rparr>))"

section \<open>The tab strip and the buttons\<close>

text \<open>The two handlers of \<^verbatim>\<open>installTabStripClickHandlers_\<close>, as functions of the document.\<close>

definition addEventsClicked :: "document \<Rightarrow> document" where
  "addEventsClicked d =
     set_id ''events'' show_elem
       (set_id ''add-events'' (addClass ''selected'')
         (set_all (hasClass ''tab'') hide
           (set_all (hasClass ''selected'') (removeClass ''selected'') d)))"

definition viewAgendaClicked :: "document \<Rightarrow> document" where
  "viewAgendaClicked d =
     set_id ''agenda'' show_elem
       (set_id ''view_agenda'' (addClass ''selected'')
         (set_all (hasClass ''tab'') hide
           (set_all (hasClass ''selected'') (removeClass ''selected'') d)))"

text \<open>
  Running one handler; \<^verbatim>\<open>this\<close> is the path of the element the handler is bound to.
\<close>

fun run_handler :: "handler \<Rightarrow> path \<Rightarrow> popup \<Rightarrow> popup" where
  "run_handler AddEventsClick this s = s\<lparr>dom := addEventsClicked (dom s)\<rparr>"
| "run_handler ViewAgendaClick this s = s\<lparr>dom := viewAgendaClicked (dom s)\<rparr>"
| "run_handler SyncNowClick this s = sendMessage ''events.feed.fetch'' ShowEventsFromFeed s"
| "run_handler EventDivClick this s =
     s\<lparr>effects := effects s @
        [TabsCreate (case elem_at this (dom s) of
                       None \<Rightarrow> None
                     | Some e \<Rightarrow> attr_get ''data-url'' e)]\<rparr>"

text \<open>
  A click on the element at a path runs the handlers of that element and then those of
  each of its ancestors, innermost first, as jQuery's event dispatch does. A path that
  names no element is no click.
\<close>

definition bubble_path :: "path \<Rightarrow> path list" where
  "bubble_path p = map (\<lambda>n. take n p) (rev [1 ..< Suc (length p)])"

definition handlers_at :: "path \<Rightarrow> document \<Rightarrow> handler list" where
  "handlers_at p d = (case elem_at p d of None \<Rightarrow> [] | Some e \<Rightarrow> handlers e)"

definition dispatch :: "path \<Rightarrow> popup \<Rightarrow> popup" where
  "dispatch q s = fold (\<lambda>h. run_handler h q) (handlers_at q (dom s)) s"

definition click :: "path \<Rightarrow> popup \<Rightarrow> popup" where
  "click p s = (case elem_at p (dom s) of
                  None \<Rightarrow> s
                | Some e \<Rightarrow> fold dispatch (bubble_path p) s)"

definition click_id :: "string \<Rightarrow> popup \<Rightarrow> popup" where
  "click_id x s = (case find_id x (dom s) of None \<Rightarrow> s | Some p \<Rightarrow> click p s)"

definition installTabStripClickHandlers :: "popup \<Rightarrow> popup" where
  "installTabStripClickHandlers s =
     click_id ''view_agenda''
       (s\<lparr>dom := set_id ''view_agenda'' (bind_click ViewAgendaClick)
                  (set_id ''add-events'' (bind_click AddEventsClick) (dom s))\<rparr>)"

definition installButtonClickHandlers :: "popup \<Rightarrow> popup" where
  "installButtonClickHandlers s =
     s\<lparr>dom := set_id ''sync_now'' (bind_click SyncNowClick) (dom s)\<rparr>"

section \<open>The login message\<close>

definition showLoginMessageIfNotAuthenticated :: "popup \<Rightarrow> popup" where
  "showLoginMessageIfNotAuthenticated s =
     s\<lparr>effects := effects s @ [GetBadgeText BadgeTextCallback]\<rparr>"

text \<open>The function passed to \<^verbatim>\<open>getBadgeText\<close>, called with the badge text.\<close>

definition badgeTextCallback :: "string \<Rightarrow> popup \<Rightarrow> popup" where
  "badgeTextCallback text s =
     (if text = ''?'' then
        sendMessage ''events.feed.fetch'' ShowEventsFromFeed
          (s\<lparr>dom := set_id ''error'' show_elem
                     (set_all (hasClass ''tab-container'') hide (dom s))\<rparr>)
      else
        s\<lparr>dom := set_id ''error'' hide
                   (set_all (hasClass ''tab-container'') show_elem (dom s))\<rparr>)"

section \<open>Events detected on the page\<close>

definition createEventButton :: "'m env \<Rightarrow> calendar_event \<Rightarrow> bool \<Rightarrow> node" where
  "createEventButton env event opt_useDefaultAnchorText =
     Element
       (attr_set ''target'' (Some ''_blank'')
         (attr_set ''title'' (Some (getMessage env ''add_to_google_calendar''))
           (attr_set ''href'' (gcal_url event)
             (addClass ''single-event'' (create ''A'')))))
       (html_set (parseHTML env)
                 (if opt_useDefaultAnchorText
                  then Some (getMessage env ''add_to_google_calendar'')
                  else title event) [])"

definition showDetectedEvents :: "popup \<Rightarrow> popup" where
  "showDetectedEvents s = sendMessage ''events.detected.get'' DetectedEventsCallback s"

text \<open>
  The function passed with \<^verbatim>\<open>events.detected.get\<close>; the answer may be missing.
\<close>

definition detectedEventsCallback :: "'m env \<Rightarrow> calendar_event list option \<Rightarrow> popup \<Rightarrow> popup" where
  "detectedEventsCallback env eventsFromPage s =
     (case eventsFromPage of
        None \<Rightarrow> s
      | Some evs \<Rightarrow>
          if length evs > 0 then
            click_id ''add-events''
              (s\<lparr>dom := fold (\<lambda>event. append_id ''events_list''
                                         [createEventButton env event False])
                          evs
                          (append_id ''events''
                             [Element ((create ''DIV'')\<lparr>ident := Some ''events_list''\<rparr>) []]
                             (dom s))\<rparr>)
          else s)"

section \<open>Events of the calendar feed\<close>

definition allDay :: "'m env \<Rightarrow> 'm option \<Rightarrow> 'm option \<Rightarrow> error + bool" where
  "allDay env start_m end_m =
     (case end_m of
        None \<Rightarrow> Inr True
      | Some en \<Rightarrow>
          (case start_m of
             None \<Rightarrow> Inl TypeError
           | Some st \<Rightarrow>
               Inr (hours env st = 0 \<and> minutes env st = 0 \<and>
                    hours env en = 0 \<and> minutes env en = 0)))"

definition startDate :: "'m env \<Rightarrow> 'm \<Rightarrow> 'm" where
  "startDate env st = set_seconds env 0 (set_minutes env 0 (set_hours env 0 st))"

definition needs_header :: "'m env \<Rightarrow> 'm option \<Rightarrow> 'm \<Rightarrow> bool" where
  "needs_header env lastDateHeader sd =
     (case lastDateHeader of None \<Rightarrow> True | Some l \<Rightarrow> diff env sd l ''hours'' > 23)"

definition dateHeader :: "'m env \<Rightarrow> 'm \<Rightarrow> node" where
  "dateHeader env lastDateHeader =
     Element (addClass ''date-header'' (create ''DIV''))
             (text_set (Some (format env lastDateHeader ''dddd MMMM, D'')) [])"

definition eventDivElement :: "calendar_event \<Rightarrow> element" where
  "eventDivElement event =
     bind_click EventDivClick
       (attr_set ''data-url'' (url event) (addClass ''event'' (create ''DIV'')))"

definition feedColor :: "feed_info \<Rightarrow> node" where
  "feedColor f =
     Element (attr_set ''title'' (feed_title f)
               (css_set ''background-color'' (color f)
                 (addClass ''feed-color'' (create ''DIV'')))) []"

definition dash :: string where
  "dash = '' '' @ [CHR 0xE2, CHR 0x80, CHR 0x93] @ '' ''"

definition startAndEndTimes :: "'m env \<Rightarrow> 'm \<Rightarrow> 'm \<Rightarrow> node" where
  "startAndEndTimes env st en =
     Element (addClass ''start-and-end-times'' (create ''DIV''))
       [Element (addClass ''start'' (create ''SPAN''))
                (text_set (Some (format env st ''h:mma'')) []),
        Text dash,
        Element (addClass ''end'' (create ''SPAN''))
                (text_set (Some (format env en ''h:mma'')) [])]"

text \<open>
  The children of the \<^verbatim>\<open>event-details\<close> division. When the event is not all-day the end
  date is present, by \<^const>\<open>allDay\<close>.
\<close>

definition eventDetails :: "'m env \<Rightarrow> calendar_event \<Rightarrow> 'm \<Rightarrow> 'm option \<Rightarrow> bool \<Rightarrow> node" where
  "eventDetails env event st end_m all_day =
     Element (addClass ''event-details'' (create ''DIV''))
       ([Element (create ''H1'') (text_set (title event) [])] @
        (if \<not> all_day
         then (case end_m of None \<Rightarrow> [] | Some en \<Rightarrow> [startAndEndTimes env st en])
         else []) @
        (case location event of
           None \<Rightarrow> []
         | Some l \<Rightarrow>
             if l \<noteq> [] then
               [Element (addClass ''location'' (create ''DIV'')) (text_set (Some l) [])]
             else []))"

text \<open>
  One iteration of the loop of \<^verbatim>\<open>showEventsFromFeed_\<close>, for one event: the nodes it appends
  to \<^verbatim>\<open>$('#agenda')\<close>, in order, with the new value of \<^verbatim>\<open>lastDateHeader\<close>, or the exception
  it throws. The event division is appended before its children are made, so an event
  without \<^verbatim>\<open>feed\<close> leaves an empty division behind.
\<close>

definition feed_iteration ::
  "'m env \<Rightarrow> 'm option \<Rightarrow> calendar_event \<Rightarrow> error \<times> node list + 'm option \<times> node list" where
  "feed_iteration env lastDateHeader event =
     (let start_m = fromIso8601 env (start event);
          end_m = fromIso8601 env (ev_end event)
      in case allDay env start_m end_m of
           Inl err \<Rightarrow> Inl (err, [])
         | Inr all_day \<Rightarrow>
             (case start_m of
                None \<Rightarrow> Inl (TypeError, [])
              | Some st \<Rightarrow>
                  (let header = needs_header env lastDateHeader (startDate env st);
                       lastDateHeader' =
                         (if header then Some (startDate env st) else lastDateHeader);
                       header_nodes =
                         (if header then [dateHeader env (startDate env st)] else [])
                   in case feed event of
                        None \<Rightarrow>
                          Inl (TypeError,
                               header_nodes @ [Element (eventDivElement event) []])
                      | Some f \<Rightarrow>
                          Inr (lastDateHeader',
                               header_nodes @
                               [Element (eventDivElement event)
                                  [feedColor f,
                                   eventDetails env event st end_m all_day]]))))"

text \<open>
  The loop. \<^verbatim>\<open>lastDateHeader\<close> is a \<^verbatim>\<open>var\<close>, so it belongs to the function and not to the
  loop body: \<^verbatim>\<open>var lastDateHeader;\<close> assigns nothing, and the variable keeps its value from
  one iteration to the next. The nodes created here carry no id, so \<^verbatim>\<open>$('#agenda')\<close> is
  the same element throughout, and the result is the list of all nodes appended to it
  with the exception that stopped the loop, if any.
\<close>

fun feed_loop :: "'m env \<Rightarrow> 'm option \<Rightarrow> calendar_event list \<Rightarrow> node list \<times> error option" where
  "feed_loop env lastDateHeader [] = ([], None)"
| "feed_loop env lastDateHeader (event # events) =
     (case feed_iteration env lastDateHeader event of
        Inl (err, nodes) \<Rightarrow> (nodes, Some err)
      | Inr (lastDateHeader', nodes) \<Rightarrow>
          (case feed_loop env lastDateHeader' events of
             (rest, err) \<Rightarrow> (nodes @ rest, err)))"

definition showEventsFromFeed :: "'m env \<Rightarrow> calendar_event list option \<Rightarrow> popup \<Rightarrow> result" where
  "showEventsFromFeed env events s =
     (case events of
        None \<Rightarrow> Inl (TypeError, s)
      | Some evs \<Rightarrow>
          (case feed_loop env None evs of
             (nodes, None) \<Rightarrow> Inr (s\<lparr>dom := append_id ''agenda'' nodes (dom s)\<rparr>)
           | (nodes, Some err) \<Rightarrow>
               Inl (err, s\<lparr>dom := append_id ''agenda'' nodes (dom s)\<rparr>)))"

section \<open>Initialization and what happens afterwards\<close>

definition initialize :: "'m env \<Rightarrow> popup \<Rightarrow> result" where
  "initialize env s =
     (case fillMessages env s of
        Inl thrown \<Rightarrow> Inl thrown
      | Inr s1 \<Rightarrow>
          Inr (sendMessage ''events.feed.get'' ShowEventsFromFeed
                (showDetectedEvents
                  (showLoginMessageIfNotAuthenticated
                    (installButtonClickHandlers
                      (installTabStripClickHandlers s1))))))"

text \<open>
  After \<^verbatim>\<open>initialize\<close> the script runs only when the browser calls it: with the answer to
  one of its requests, or with a click.
\<close>

datatype input =
    Click path
  | BadgeText string
  | DetectedEvents "calendar_event list option"
  | FeedEvents "calendar_event list option"

fun react :: "'m env \<Rightarrow> input \<Rightarrow> popup \<Rightarrow> result" where
  "react env (Click p) s = Inr (click p s)"
| "react env (BadgeText text) s = Inr (badgeTextCallback text s)"
| "react env (DetectedEvents evs) s = Inr (detectedEventsCallback env evs s)"
| "react env (FeedEvents evs) s = showEventsFromFeed env evs s"

definition state_of :: "result \<Rightarrow> popup" where
  "state_of r = (case r of Inl (err, s) \<Rightarrow> s | Inr s \<Rightarrow> s)"

text \<open>An uncaught exception ends the call that threw it and nothing else.\<close>

fun run :: "'m env \<Rightarrow> input list \<Rightarrow> popup \<Rightarrow> popup" where
  "run env [] s = s"
| "run env (i # is) s = run env is (state_of (react env i s))"

section \<open>A concrete environment and a concrete popup page\<close>

text \<open>
  The examples below need dates that can be computed with. A date is a day of January
  2013 (day 0 is Tuesday the first) and a time of day; the parser reads
  \<^verbatim>\<open>2013-01-DD\<close> and \<^verbatim>\<open>2013-01-DDTHH:MM:SS\<close>, and \<^verbatim>\<open>diff\<close> truncates towards zero, as
  the date library does.
\<close>

record moment =
  m_day :: int
  m_hour :: int
  m_minute :: int
  m_second :: int

definition moment_seconds :: "moment \<Rightarrow> int" where
  "moment_seconds m = ((m_day m * 24 + m_hour m) * 60 + m_minute m) * 60 + m_second m"

definition moment_diff :: "moment \<Rightarrow> moment \<Rightarrow> string \<Rightarrow> int" where
  "moment_diff a b unit =
     (let d = moment_seconds a - moment_seconds b
      in if unit = ''hours''
         then (if 0 \<le> d then d div 3600 else - ((- d) div 3600))
         else d * 1000)"

definition two_digits :: "char \<Rightarrow> char \<Rightarrow> int" where
  "two_digits a b = (int (of_char a) - 48) * 10 + (int (of_char b) - 48)"

definition parse_moment :: "string option \<Rightarrow> moment option" where
  "parse_moment date =
     (case date of
        None \<Rightarrow> None
      | Some s \<Rightarrow>
          if take 8 s = ''2013-01-'' \<and> length s = 10 then
            Some \<lparr>m_day = two_digits (s ! 8) (s ! 9) - 1, m_hour = 0, m_minute = 0,
                  m_second = 0\<rparr>
          else if take 8 s = ''2013-01-'' \<and> length s = 19 then
            Some \<lparr>m_day = two_digits (s ! 8) (s ! 9) - 1,
                  m_hour = two_digits (s ! 11) (s ! 12),
                  m_minute = two_digits (s ! 14) (s ! 15),
                  m_second = two_digits (s ! 17) (s ! 18)\<rparr>
          else None)"

definition decimal :: "int \<Rightarrow> string" where
  "decimal n =
     (if n < 10 then [char_of (48 + n)]
      else [char_of (48 + n div 10), char_of (48 + n mod 10)])"

definition moment_format :: "moment \<Rightarrow> string \<Rightarrow> string" where
  "moment_format m pattern =
     (if pattern = ''h:mma'' then
        decimal (if m_hour m mod 12 = 0 then 12 else m_hour m mod 12) @ '':'' @
        [char_of (48 + m_minute m div 10), char_of (48 + m_minute m mod 10)] @
        (if m_hour m < 12 then ''am'' else ''pm'')
      else if pattern = ''dddd MMMM, D'' then
        [''Tuesday'', ''Wednesday'', ''Thursday'', ''Friday'', ''Saturday'', ''Sunday'',
         ''Monday''] ! nat (m_day m mod 7) @ '' January, '' @ decimal (m_day m + 1)
      else pattern)"

text \<open>
  The HTML parser of the examples. A string without \<^verbatim>\<open><\<close> and \<^verbatim>\<open>&\<close> is one text node. Of
  markup it reads one empty element with an id, \<^verbatim>\<open><tag id="x"></tag>\<close>, as a browser does;
  the examples use no other markup.
\<close>

definition upper :: "char \<Rightarrow> char" where
  "upper c = (let n = of_char c :: nat in if 97 \<le> n \<and> n \<le> 122 then char_of (n - 32) else c)"

definition parse_markup :: "string \<Rightarrow> node list" where
  "parse_markup s =
     (if CHR ''<'' \<notin> set s \<and> CHR ''&'' \<notin> set s then (if s = [] then [] else [Text s])
      else if take 1 s = ''<'' then
        (let tag = takeWhile (\<lambda>c. c \<noteq> CHR '' '') (drop 1 s);
             rest = drop (1 + length tag) s;
             i = takeWhile (\<lambda>c. c \<noteq> CHR 0x22) (drop 5 rest)
         in if tag \<noteq> [] \<and>
               rest = '' id='' @ [CHR 0x22] @ i @ [CHR 0x22] @ ''></'' @ tag @ ''>''
            then [Element ((create (map upper tag))\<lparr>ident := Some i\<rparr>) []]
            else [])
      else [])"

definition demo_env :: "moment env" where
  "demo_env =
     \<lparr>getMessage = (\<lambda>name. ''msg:'' @ name),
      fromIso8601 = parse_moment,
      hours = m_hour,
      minutes = m_minute,
      set_hours = (\<lambda>h m. m\<lparr>m_hour := h\<rparr>),
      set_minutes = (\<lambda>mi m. m\<lparr>m_minute := mi\<rparr>),
      set_seconds = (\<lambda>sec m. m\<lparr>m_second := sec\<rparr>),
      diff = moment_diff,
      format = moment_format,
      parseHTML = parse_markup\<rparr>"

definition el :: "string \<Rightarrow> string option \<Rightarrow> string list \<Rightarrow> (string \<times> string) list \<Rightarrow> element" where
  "el tag i cls as = (create tag)\<lparr>ident := i, classes := cls, attrs := as\<rparr>"

definition demo_document :: document where
  "demo_document =
     [Element (el ''DIV'' (Some ''error'') [''i18n''] []) [Text ''Please log in''],
      Element (el ''DIV'' None [''tab-container''] [])
        [Element (el ''DIV'' (Some ''tabstrip'') [] [])
           [Element (el ''DIV'' (Some ''add-events'') [''i18n''] []) [],
            Element (el ''DIV'' (Some ''view_agenda'') [''i18n''] []) []],
         Element (el ''SECTION'' (Some ''events'') [''tab''] []) [],
         Element (el ''SECTION'' (Some ''agenda'') [''tab''] []) []],
      Element (el ''DIV'' (Some ''sync_now'') [''i18n''] []) [],
      Element (el ''A'' None [] [(''data-href'', ''calendar_ui_url'')])
        [Element (el ''IMG'' (Some ''logo'') [''i18n''] []) []]]"

definition demo_popup :: popup where
  "demo_popup = \<lparr>dom = demo_document, effects = []\<rparr>"

definition demo_event :: "string \<Rightarrow> string \<Rightarrow> string \<Rightarrow> calendar_event" where
  "demo_event t s e =
     \<lparr>title = Some t, start = Some s, ev_end = Some e,
      url = Some (''https://www.google.com/calendar/event?eid='' @ t),
      gcal_url = Some (''https://www.google.com/calendar/render?text='' @ t),
      location = None,
      feed = Some \<lparr>color = Some ''#9fe1e7'', feed_title = Some ''Work''\<rparr>\<rparr>"

text \<open>Events for the examples: two on the first of January, and one all-day event on the
  third.\<close>

definition demo_events :: "calendar_event list" where
  "demo_events =
     [demo_event ''standup'' ''2013-01-01T09:00:00'' ''2013-01-01T09:30:00'',
      demo_event ''review'' ''2013-01-01T11:00:00'' ''2013-01-01T12:30:00'',
      demo_event ''holiday'' ''2013-01-03'' ''2013-01-04'']"

definition same_day_events :: "calendar_event list" where
  "same_day_events =
     [demo_event ''standup'' ''2013-01-01T09:00:00'' ''2013-01-01T09:30:00'',
      demo_event ''review'' ''2013-01-01T11:00:00'' ''2013-01-01T12:30:00'']"

section \<open>Reading the document\<close>

text \<open>What the statements below say about nodes: a class, the children, the descendants
  with a given class.\<close>

definition node_has_class :: "string \<Rightarrow> node \<Rightarrow> bool" where
  "node_has_class c n = (case n of Element e cs \<Rightarrow> hasClass c e | _ \<Rightarrow> False)"

definition children_of :: "node \<Rightarrow> node list" where
  "children_of n = (case n of Element e cs \<Rightarrow> cs | _ \<Rightarrow> [])"

definition within :: "string \<Rightarrow> node \<Rightarrow> node list" where
  "within c n = filter (node_has_class c) (elements_of n)"

text \<open>
  An event is rendered without an exception when its start date parses and it has a
  feed. It is classified all-day when it has no end date, or when start and end both have
  hour 0 and minute 0.
\<close>

definition renders :: "'m env \<Rightarrow> calendar_event \<Rightarrow> bool" where
  "renders env event = (fromIso8601 env (start event) \<noteq> None \<and> feed event \<noteq> None)"

definition classified_all_day :: "'m env \<Rightarrow> calendar_event \<Rightarrow> bool" where
  "classified_all_day env event =
     (case fromIso8601 env (ev_end event) of
        None \<Rightarrow> True
      | Some en \<Rightarrow>
          (case fromIso8601 env (start event) of
             None \<Rightarrow> False
           | Some st \<Rightarrow> hours env st = 0 \<and> minutes env st = 0 \<and>
                        hours env en = 0 \<and> minutes env en = 0))"

text \<open>
  Which events of a list get a date header, said without the loop: the first one, and
  every later one whose start date is more than 23 hours after the date of the header
  before it.
\<close>

fun header_flags :: "'m env \<Rightarrow> 'm option \<Rightarrow> calendar_event list \<Rightarrow> bool list" where
  "header_flags env lastDateHeader [] = []"
| "header_flags env lastDateHeader (event # events) =
     (case fromIso8601 env (start event) of
        None \<Rightarrow> []
      | Some st \<Rightarrow>
          (if needs_header env lastDateHeader (startDate env st)
           then True # header_flags env (Some (startDate env st)) events
           else False # header_flags env lastDateHeader events))"

text \<open>The text of an event's date header, and of its start or end time.\<close>

definition header_text :: "'m env \<Rightarrow> calendar_event \<Rightarrow> node list" where
  "header_text env event =
     (case fromIso8601 env (start event) of
        None \<Rightarrow> []
      | Some st \<Rightarrow> [Text (format env (startDate env st) ''dddd MMMM, D'')])"

definition time_texts ::
  "'m env \<Rightarrow> calendar_event \<Rightarrow> (calendar_event \<Rightarrow> string option) \<Rightarrow> node list list" where
  "time_texts env event field =
     (if classified_all_day env event then []
      else case fromIso8601 env (field event) of
             None \<Rightarrow> []
           | Some m \<Rightarrow> [[Text (format env m ''h:mma'')]])"

section \<open>Predicates used in the statements\<close>

text \<open>
  The requests the script may make: the three messages to the background page, each with
  its own callback, the badge text, and the opening of a tab. \<^verbatim>\<open>extends s s'\<close>: the
  requests of \<^verbatim>\<open>s'\<close> are those of \<^verbatim>\<open>s\<close> followed by requests of these kinds only.
\<close>

definition allowed :: "effect \<Rightarrow> bool" where
  "allowed e =
     (case e of
        SendMessage method cb \<Rightarrow>
          (method = ''events.feed.get'' \<and> cb = ShowEventsFromFeed) \<or>
          (method = ''events.feed.fetch'' \<and> cb = ShowEventsFromFeed) \<or>
          (method = ''events.detected.get'' \<and> cb = DetectedEventsCallback)
      | GetBadgeText cb \<Rightarrow> cb = BadgeTextCallback
      | TabsCreate u \<Rightarrow> True)"

definition extends :: "popup \<Rightarrow> popup \<Rightarrow> bool" where
  "extends s s' =
     (take (length (effects s)) (effects s') = effects s \<and>
      list_all allowed (drop (length (effects s)) (effects s')))"

text \<open>The methods of the messages sent, in order.\<close>

fun methods_sent :: "effect list \<Rightarrow> string list" where
  "methods_sent [] = []"
| "methods_sent (SendMessage method cb # es) = method # methods_sent es"
| "methods_sent (GetBadgeText cb # es) = methods_sent es"
| "methods_sent (TabsCreate u # es) = methods_sent es"

text \<open>A property of every element of the document.\<close>

definition every_element :: "(element \<Rightarrow> bool) \<Rightarrow> document \<Rightarrow> bool" where
  "every_element P d =
     list_all (\<lambda>n. case n of Element e cs \<Rightarrow> P e | _ \<Rightarrow> True) (all_elements d)"

definition no_handlers :: "document \<Rightarrow> bool" where
  "no_handlers d = every_element (\<lambda>e. handlers e = []) d"

definition i18n_has_id :: "document \<Rightarrow> bool" where
  "i18n_has_id d = every_element (\<lambda>e. hasClass ''i18n'' e \<longrightarrow> ident e \<noteq> None) d"

text \<open>The number of elements of a document.\<close>

fun count_elements :: "document \<Rightarrow> nat" where
  "count_elements [] = 0"
| "count_elements (Element e cs # ns) = Suc (count_elements cs + count_elements ns)"
| "count_elements (Text t # ns) = count_elements ns"

text \<open>A change to one node keeps every id where it is when it keeps the id of the node and
  the ids among its children.\<close>

definition keeps_id :: "string \<Rightarrow> (node \<Rightarrow> node) \<Rightarrow> bool" where
  "keeps_id x f \<longleftrightarrow>
     (\<forall>e cs. \<exists>e' cs'. f (Element e cs) = Element e' cs' \<and> ident e' = ident e \<and>
                       find_id x cs' = find_id x cs) \<and>
     (\<forall>t. f (Text t) = Text t)"



text \<open>
  Which events of a call get a date header, in words of dates only and without the
  functions of the loop: an event gets one when its day (its start with hour, minute and
  second set to 0) is more than 23 hours after the day of the header appended last, or
  when no header was appended yet; the argument \<^verbatim>\<open>prev_day\<close> is the day of that header.
\<close>

fun header_expected :: "'m env \<Rightarrow> 'm option \<Rightarrow> calendar_event list \<Rightarrow> bool list" where
  "header_expected env prev_day [] = []"
| "header_expected env prev_day (event # events) =
     (case fromIso8601 env (start event) of
        None \<Rightarrow> []
      | Some st \<Rightarrow>
          (let day = set_seconds env 0 (set_minutes env 0 (set_hours env 0 st))
           in case prev_day of
                None \<Rightarrow> True # header_expected env (Some day) events
              | Some l \<Rightarrow>
                  if 23 < diff env day l ''hours''
                  then True # header_expected env (Some day) events
                  else False # header_expected env prev_day events))"

text \<open>
  Events around a change of day: 9:00 and 23:00 on the first of January, 8:00 on the
  second (23 hours after the first event, 24 hours after its day), 20:00 on the second,
  and an all-day event on the fourth.
\<close>

definition header_events :: "calendar_event list" where
  "header_events =
     [demo_event ''breakfast'' ''2013-01-01T09:00:00'' ''2013-01-01T09:30:00'',
      demo_event ''late'' ''2013-01-01T23:00:00'' ''2013-01-01T23:30:00'',
      demo_event ''early'' ''2013-01-02T08:00:00'' ''2013-01-02T08:30:00'',
      demo_event ''dinner'' ''2013-01-02T20:00:00'' ''2013-01-02T21:00:00'',
      demo_event ''away'' ''2013-01-04'' ''2013-01-05'']"

text \<open>
  The positions of the event divisions among the nodes appended to the agenda, in document
  order, and the contents of the headings (\<^verbatim>\<open>h1\<close>) within a node.
\<close>

definition event_positions :: "node list \<Rightarrow> nat list" where
  "event_positions nodes =
     filter (\<lambda>j. node_has_class ''event'' (nodes ! j)) [0..<length nodes]"

definition headings :: "node \<Rightarrow> node list list" where
  "headings n =
     map children_of
       (filter (\<lambda>m. case m of Element e cs \<Rightarrow> tagName e = ''H1'' | _ \<Rightarrow> False)
          (elements_of n))"

text \<open>
  Detected events whose titles are markup: one holds an element with the id of the agenda
  pane, the other an element with the id of the detected-events tab. And a page like
  \<^const>\<open>demo_document\<close> with the two panes before the tab strip.
\<close>

definition agenda_title_event :: calendar_event where
  "agenda_title_event =
     (demo_event ''party'' ''2013-01-01T09:00:00'' ''2013-01-01T09:30:00'')
       \<lparr>title := Some (''<div id='' @ [CHR 0x22] @ ''agenda'' @ [CHR 0x22] @ ''></div>'')\<rparr>"

definition tab_title_event :: calendar_event where
  "tab_title_event =
     (demo_event ''party'' ''2013-01-01T09:00:00'' ''2013-01-01T09:30:00'')
       \<lparr>title := Some (''<b id='' @ [CHR 0x22] @ ''add-events'' @ [CHR 0x22] @ ''></b>'')\<rparr>"

definition panes_first_document :: document where
  "panes_first_document =
     [Element (el ''DIV'' (Some ''error'') [''i18n''] []) [Text ''Please log in''],
      Element (el ''DIV'' None [''tab-container''] [])
        [Element (el ''SECTION'' (Some ''events'') [''tab''] []) [],
         Element (el ''SECTION'' (Some ''agenda'') [''tab''] []) [],
         Element (el ''DIV'' (Some ''tabstrip'') [] [])
           [Element (el ''DIV'' (Some ''add-events'') [''i18n''] []) [],
            Element (el ''DIV'' (Some ''view_agenda'') [''i18n''] []) []]],
      Element (el ''DIV'' (Some ''sync_now'') [''i18n''] []) [],
      Element (el ''A'' None [] [(''data-href'', ''calendar_ui_url'')])
        [Element (el ''IMG'' (Some ''logo'') [''i18n''] []) []]]"

definition panes_first_popup :: popup where
  "panes_first_popup = \<lparr>dom = panes_first_document, effects = []\<rparr>"

text \<open>
  What a statement reads of the tab strip at given paths: whether the element there has
  the class \<^verbatim>\<open>selected\<close>, whether it is shown, and its id.
\<close>

definition selected_at :: "path \<Rightarrow> popup \<Rightarrow> bool option" where
  "selected_at p s = map_option (hasClass ''selected'') (elem_at p (dom s))"

definition shown_at :: "path \<Rightarrow> popup \<Rightarrow> bool option" where
  "shown_at p s = map_option shown (elem_at p (dom s))"

definition id_at :: "path \<Rightarrow> popup \<Rightarrow> string option" where
  "id_at p s = (case elem_at p (dom s) of None \<Rightarrow> None | Some e \<Rightarrow> ident e)"

section \<open>Lemmas about paths and selections\<close>

lemma length_update_at [simp]: "length (update_at q f d) = length d"
  by (induction q f d rule: update_at.induct) (auto split: node.splits)

lemma node_at_update_same: "node_at p (update_at p f d) = map_option f (node_at p d)"
  by (induction p f d rule: update_at.induct) (auto split: node.splits)

lemma elem_at_Nil [simp]: "elem_at [] d = None"
  by (simp add: elem_at_def)

lemma elem_at_single:
  "elem_at [i] d = (if i < length d then (case d ! i of Element e cs \<Rightarrow> Some e | _ \<Rightarrow> None) else None)"
  by (simp add: elem_at_def split: node.splits)

lemma elem_at_Cons:
  "p \<noteq> [] \<Longrightarrow> elem_at (i # p) d =
     (if i < length d then (case d ! i of Element e cs \<Rightarrow> elem_at p cs | _ \<Rightarrow> None) else None)"
  by (cases p) (auto simp: elem_at_def split: node.splits)

lemma update_at_Cons:
  "q \<noteq> [] \<Longrightarrow> update_at (i # q) f d =
     (if i < length d then (case d ! i of Element e cs \<Rightarrow> d[i := Element e (update_at q f cs)] | _ \<Rightarrow> d) else d)"
  by (cases q) auto

lemma elem_at_update:
  "elem_at p (update_at q (on_element g) d) =
     (if p = q then map_option g (elem_at p d) else elem_at p d)"
proof (induction q arbitrary: p d)
  case Nil
  then show ?case by simp
next
  case (Cons i q)
  show ?case
  proof (cases "q = []")
    case True
    show ?thesis
    proof (cases p)
      case Nil
      then show ?thesis by simp
    next
      case (Cons j p')
      then show ?thesis
        using True
        by (cases "p' = []")
           (auto simp: elem_at_single elem_at_Cons on_element_def nth_list_update split: node.splits)
    qed
  next
    case False
    show ?thesis
    proof (cases p)
      case Nil
      then show ?thesis by simp
    next
      case (Cons j p')
      then show ?thesis
        using False Cons.IH
        by (cases "p' = []")
           (auto simp: elem_at_single elem_at_Cons update_at_Cons nth_list_update
                 split: node.splits if_splits)
    qed
  qed
qed

lemma elem_at_map_elements:
  "elem_at p (map (map_elements g) d) = map_option g (elem_at p d)"
proof (induction p arbitrary: d)
  case Nil
  then show ?case by simp
next
  case (Cons i p)
  show ?case
  proof (cases "p = []")
    case True
    then show ?thesis by (auto simp: elem_at_single split: node.splits)
  next
    case False
    then show ?thesis using Cons.IH by (auto simp: elem_at_Cons split: node.splits)
  qed
qed

lemma find_id_map_elements:
  "(\<And>e. ident (g e) = ident e) \<Longrightarrow> find_id x (map (map_elements g) d) = find_id x d"
  by (induction x d rule: find_id.induct) (auto split: option.splits)

lemma shift_eq_Nil [simp]: "shift p = [] \<longleftrightarrow> p = []"
  by (cases p) (auto simp: shift_def)

lemma find_id_nonempty: "find_id x d = Some p \<Longrightarrow> p \<noteq> []"
  by (induction x d arbitrary: p rule: find_id.induct) (auto split: if_splits option.splits)

lemma node_at_shift: "node_at (shift p) (n # ns) = node_at p ns"
proof (cases p)
  case Nil
  then show ?thesis by (simp add: shift_def)
next
  case (Cons i q)
  then show ?thesis by (cases q) (auto simp: shift_def)
qed

lemma node_at_0: "p \<noteq> [] \<Longrightarrow> node_at (0 # p) (Element e cs # ns) = node_at p cs"
  by (cases p) auto

lemma find_id_node:
  "find_id x d = Some p \<Longrightarrow> \<exists>e cs. node_at p d = Some (Element e cs) \<and> ident e = Some x"
proof (induction x d arbitrary: p rule: find_id.induct)
  case (1 x)
  then show ?case by simp
next
  case (2 x e cs ns)
  then show ?case
    by (auto simp: node_at_shift node_at_0 find_id_nonempty split: if_splits option.splits)
next
  case (3 x t ns)
  then show ?case by (auto simp: node_at_shift)
qed


lemma update_at_Nil [simp]: "update_at q f [] = []"
proof (cases q)
  case Nil
  then show ?thesis by simp
next
  case (Cons i q')
  then show ?thesis by (cases q') auto
qed

lemma update_at_Cons_Suc: "update_at (Suc i # q) f (n # ns) = n # update_at (i # q) f ns"
  by (cases q) (auto split: node.splits)

lemma update_at_Cons_0:
  "update_at (0 # q) f (n # ns) =
     (if q = [] then f n # ns
      else case n of Element e cs \<Rightarrow> Element e (update_at q f cs) # ns | _ \<Rightarrow> n # ns)"
  by (cases q) (auto split: node.splits)

lemma find_id_update_at:
  "keeps_id x f \<Longrightarrow> find_id x (update_at q f d) = find_id x d"
proof (induction x d arbitrary: q rule: find_id.induct)
  case (1 x)
  then show ?case by simp
next
  case (2 x e cs ns)
  show ?case
  proof (cases q)
    case Nil
    then show ?thesis by simp
  next
    case (Cons i q')
    show ?thesis
    proof (cases i)
      case 0
      from 2(3) obtain e' cs' where
        f: "f (Element e cs) = Element e' cs'" "ident e' = ident e" "find_id x cs' = find_id x cs"
        unfolding keeps_id_def by blast
      show ?thesis
        using Cons 0 f 2 by (auto simp: update_at_Cons_0 split: option.splits)
    next
      case (Suc j)
      then show ?thesis using Cons 2 by (auto simp: update_at_Cons_Suc split: option.splits)
    qed
  qed
next
  case (3 x t ns)
  show ?case
  proof (cases q)
    case Nil
    then show ?thesis by simp
  next
    case (Cons i q')
    from 3(2) have "f (Text t) = Text t" unfolding keeps_id_def by blast
    then show ?thesis
      using Cons 3 by (cases i) (auto simp: update_at_Cons_0 update_at_Cons_Suc)
  qed
qed

lemma keeps_id_on_element: "(\<And>e. ident (g e) = ident e) \<Longrightarrow> keeps_id x (on_element g)"
  by (simp add: keeps_id_def on_element_def)

lemma find_id_append_None:
  "find_id x new = None \<Longrightarrow> find_id x (cs @ new) = find_id x cs"
  by (induction x cs rule: find_id.induct) (auto split: option.splits)

lemma keeps_id_append_children: "find_id x new = None \<Longrightarrow> keeps_id x (append_children new)"
  by (simp add: keeps_id_def append_children_def find_id_append_None)

lemma find_id_set_id:
  "(\<And>e. ident (g e) = ident e) \<Longrightarrow> find_id x (set_id y g d) = find_id x d"
  by (simp add: set_id_def find_id_update_at keeps_id_on_element split: option.splits)

lemma find_id_set_all:
  "(\<And>e. ident (g e) = ident e) \<Longrightarrow> find_id x (set_all sel g d) = find_id x d"
  by (simp add: set_all_def find_id_map_elements)

lemma find_id_append_id:
  "find_id x new = None \<Longrightarrow> find_id x (append_id y new d) = find_id x d"
  by (simp add: append_id_def find_id_update_at keeps_id_append_children split: option.splits)

lemma elem_at_append_list:
  assumes "elem_at p cs = Some e"
  shows "elem_at p (cs @ new) = Some e"
proof (cases p)
  case Nil
  with assms show ?thesis by simp
next
  case (Cons j p')
  with assms show ?thesis
    by (cases "p' = []")
       (auto simp: elem_at_single elem_at_Cons nth_append split: node.splits if_splits)
qed

lemma elem_at_append:
  "elem_at p d = Some e \<Longrightarrow> elem_at p (update_at q (append_children new) d) = Some e"
proof (induction q arbitrary: p d)
  case Nil
  then show ?case by simp
next
  case (Cons i q)
  show ?case
  proof (cases p)
    case Nil
    with Cons.prems show ?thesis by simp
  next
    case (Cons j p')
    show ?thesis
    proof (cases "q = []")
      case True
      then show ?thesis
        using Cons Cons.prems
        by (cases "p' = []")
           (auto simp: elem_at_single elem_at_Cons append_children_def nth_list_update
              elem_at_append_list split: node.splits if_splits)
    next
      case False
      then show ?thesis
        using Cons Cons.prems Cons.IH
        by (cases "p' = []")
           (auto simp: elem_at_single elem_at_Cons update_at_Cons nth_list_update
              split: node.splits if_splits)
    qed
  qed
qed

lemma children_at_append_id:
  "find_id x d = Some p \<Longrightarrow> children_at p (append_id x new d) = children_at p d @ new"
  using find_id_node[of x d p]
  by (auto simp: children_at_def append_id_def node_at_update_same append_children_def)

section \<open>The agenda\<close>

lemma feed_iteration_renders:
  assumes "renders env event"
  shows "\<exists>st f. fromIso8601 env (start event) = Some st \<and> feed event = Some f \<and>
     feed_iteration env l event =
       Inr (if needs_header env l (startDate env st) then Some (startDate env st) else l,
            (if needs_header env l (startDate env st)
             then [dateHeader env (startDate env st)] else []) @
            [Element (eventDivElement event)
               [feedColor f,
                eventDetails env event st (fromIso8601 env (ev_end event))
                  (classified_all_day env event)]])"
  using assms
  by (auto simp: renders_def feed_iteration_def allDay_def classified_all_day_def Let_def
           split: option.splits)

text \<open>
  The shape of the loop's result when every event renders, as an induction principle: a
  property of the starting value of \<^verbatim>\<open>lastDateHeader\<close>, the events and the appended nodes
  that holds for no events, and is kept when an iteration's nodes are put in front.
\<close>

lemma feed_loop_shape:
  assumes all: "\<forall>e\<in>set events. renders env e"
    and nil: "\<And>l. P l [] []"
    and step: "\<And>l e es st f rest.
      fromIso8601 env (start e) = Some st \<Longrightarrow> feed e = Some f \<Longrightarrow>
      P (if needs_header env l (startDate env st) then Some (startDate env st) else l) es rest \<Longrightarrow>
      P l (e # es)
        ((if needs_header env l (startDate env st)
          then [dateHeader env (startDate env st)] else []) @
         [Element (eventDivElement e)
            [feedColor f,
             eventDetails env e st (fromIso8601 env (ev_end e)) (classified_all_day env e)]] @
         rest)"
  shows "\<exists>nodes. feed_loop env l events = (nodes, None) \<and> P l events nodes"
  using all
proof (induction events arbitrary: l)
  case Nil
  show ?case by (simp add: nil)
next
  case (Cons e es)
  from Cons.prems have r: "renders env e" and rs: "\<forall>e\<in>set es. renders env e" by auto
  from feed_iteration_renders[OF r, of l] obtain st f where
    st: "fromIso8601 env (start e) = Some st" and f: "feed e = Some f" and
    it: "feed_iteration env l e =
       Inr (if needs_header env l (startDate env st) then Some (startDate env st) else l,
            (if needs_header env l (startDate env st)
             then [dateHeader env (startDate env st)] else []) @
            [Element (eventDivElement e)
               [feedColor f,
                eventDetails env e st (fromIso8601 env (ev_end e))
                  (classified_all_day env e)]])"
    by blast
  let ?l' = "if needs_header env l (startDate env st) then Some (startDate env st) else l"
  from Cons.IH[OF rs, of ?l'] obtain rest where
    rest: "feed_loop env ?l' es = (rest, None)" and p: "P ?l' es rest"
    by blast
  from step[OF st f p] show ?case
    using it rest by simp
qed

lemma showEventsFromFeed_appends:
  assumes "find_id ''agenda'' (dom s) = Some pg"
    and "feed_loop env None events = (nodes, None)"
  shows "\<exists>s'. showEventsFromFeed env (Some events) s = Inr s' \<and>
     children_at pg (dom s') = children_at pg (dom s) @ nodes \<and> effects s' = effects s"
  using assms by (simp add: showEventsFromFeed_def children_at_append_id)

lemma classes_attr_set [simp]: "classes (attr_set n v e) = classes e"
  by (simp add: attr_set_def split: option.splits)

lemma classes_css_set [simp]: "classes (css_set n v e) = classes e"
  by (simp add: css_set_def split: option.splits)

lemma classes_bind_click [simp]: "classes (bind_click h e) = classes e"
  by (simp add: bind_click_def)

lemma classes_create [simp]: "classes (create tag) = []"
  by (simp add: create_def)

lemma classes_addClass_create [simp]: "classes (addClass c (create tag)) = [c]"
  by (simp add: addClass_def create_def)

lemma within_Element:
  "within c (Element e cs) =
     (if c \<in> set (classes e) then [Element e cs] else []) @ concat (map (within c) cs)"
  unfolding within_def
  by (simp add: node_has_class_def hasClass_def filter_concat comp_def)

lemma within_leaf [simp]: "within c (Text t) = []"
  by (simp add: within_def)

lemma within_text_set [simp]: "concat (map (within c) (text_set v [])) = []"
  by (cases v) (simp_all add: text_set_def)

lemma text_set_Some [simp]: "text_set (Some t) cs = [Text t]"
  by (simp add: text_set_def)

lemma classes_eventDivElement [simp]: "classes (eventDivElement event) = [''event'']"
  by (simp add: eventDivElement_def)

lemma within_feedColor: "c \<noteq> ''feed-color'' \<Longrightarrow> within c (feedColor f) = []"
  by (simp add: feedColor_def within_Element)

lemma within_times_eventDiv:
  "within ''start-and-end-times'' (Element (eventDivElement event)
      [feedColor f, eventDetails env event st end_m all_day]) =
   (if all_day then []
    else case end_m of None \<Rightarrow> [] | Some en \<Rightarrow> [startAndEndTimes env st en])"
  by (cases "location event"; cases end_m)
     (simp_all add: within_Element within_feedColor eventDetails_def startAndEndTimes_def)

lemma within_start_eventDiv:
  "map children_of (within ''start'' (Element (eventDivElement event)
      [feedColor f, eventDetails env event st end_m all_day])) =
   (if all_day then []
    else case end_m of None \<Rightarrow> [] | Some en \<Rightarrow> [[Text (format env st ''h:mma'')]])"
  by (cases "location event"; cases end_m)
     (simp_all add: within_Element within_feedColor eventDetails_def startAndEndTimes_def
        children_of_def)

lemma within_end_eventDiv:
  "map children_of (within ''end'' (Element (eventDivElement event)
      [feedColor f, eventDetails env event st end_m all_day])) =
   (if all_day then []
    else case end_m of None \<Rightarrow> [] | Some en \<Rightarrow> [[Text (format env en ''h:mma'')]])"
  by (cases "location event"; cases end_m)
     (simp_all add: within_Element within_feedColor eventDetails_def startAndEndTimes_def
        children_of_def)

lemma has_class_dateHeader [simp]:
  "node_has_class c (dateHeader env m) \<longleftrightarrow> c = ''date-header''"
  by (auto simp: node_has_class_def dateHeader_def hasClass_def)

lemma has_class_eventDiv [simp]:
  "node_has_class c (Element (eventDivElement event) cs) \<longleftrightarrow> c = ''event''"
  by (auto simp: node_has_class_def hasClass_def)

lemma children_of_dateHeader [simp]:
  "children_of (dateHeader env m) = [Text (format env m ''dddd MMMM, D'')]"
  by (simp add: children_of_def dateHeader_def)

lemma all_day_end:
  "\<not> classified_all_day env event \<Longrightarrow> \<exists>en. fromIso8601 env (ev_end event) = Some en"
  by (auto simp: classified_all_day_def split: option.splits)

lemma demo_events_render: "\<forall>e\<in>set demo_events. renders demo_env e"
  by (simp add: demo_events_def demo_event_def renders_def demo_env_def parse_moment_def)

lemma demo_agenda: "find_id ''agenda'' (dom demo_popup) = Some [1, 2]"
  by (simp add: demo_popup_def demo_document_def el_def create_def shift_def)

section \<open>Claims about the agenda\<close>

lemma demo_all_day: "map (classified_all_day demo_env) demo_events = [False, False, True]"
  by code_simp

text \<open>
  Claim C9. For every feed event, \<^verbatim>\<open>showEventsFromFeed_\<close> leaves out the division with the
  start and end times exactly when the event is classified all-day: when it has no end
  date, or its start and its end both have hour 0 and minute 0. Here for a list of events
  that all render, on a page with an agenda: the call returns, the nodes appended to the
  agenda are \<open>nodes\<close>, and the event divisions among them lack the times block exactly
  for the all-day events, in the order of the events.
\<close>

theorem times_block_omitted_iff_all_day:
  assumes "\<forall>e\<in>set events. renders env e" and "find_id ''agenda'' (dom s) = Some pg"
  shows "\<exists>s' nodes. showEventsFromFeed env (Some events) s = Inr s' \<and>
           children_at pg (dom s') = children_at pg (dom s) @ nodes \<and>
           map (\<lambda>n. within ''start-and-end-times'' n = [])
               (filter (node_has_class ''event'') nodes) =
             map (classified_all_day env) events"
proof -
  have "\<exists>nodes. feed_loop env None events = (nodes, None) \<and>
          map (\<lambda>n. within ''start-and-end-times'' n = [])
              (filter (node_has_class ''event'') nodes) =
            map (classified_all_day env) events"
  proof (rule feed_loop_shape[OF assms(1)])
    show "map (\<lambda>n. within ''start-and-end-times'' n = []) (filter (node_has_class ''event'') []) =
            map (classified_all_day env) []" by simp
  next
    fix l e es st f rest
    assume "map (\<lambda>n. within ''start-and-end-times'' n = [])
              (filter (node_has_class ''event'') rest) = map (classified_all_day env) es"
    then show "map (\<lambda>n. within ''start-and-end-times'' n = [])
       (filter (node_has_class ''event'')
         ((if needs_header env l (startDate env st)
           then [dateHeader env (startDate env st)] else []) @
          [Element (eventDivElement e)
            [feedColor f,
             eventDetails env e st (fromIso8601 env (ev_end e)) (classified_all_day env e)]] @
          rest)) = map (classified_all_day env) (e # es)"
      using all_day_end[of env e] by (auto simp: within_times_eventDiv)
  qed
  then obtain nodes where n: "feed_loop env None events = (nodes, None)"
    and m: "map (\<lambda>n. within ''start-and-end-times'' n = [])
              (filter (node_has_class ''event'') nodes) = map (classified_all_day env) events"
    by blast
  from showEventsFromFeed_appends[OF assms(2) n] m show ?thesis by blast
qed

theorem times_block_omitted_iff_all_day_witness:
  "\<exists>s' nodes. showEventsFromFeed demo_env (Some demo_events) demo_popup = Inr s' \<and>
     children_at [1, 2] (dom s') = children_at [1, 2] (dom demo_popup) @ nodes \<and>
     map (\<lambda>n. within ''start-and-end-times'' n = [])
         (filter (node_has_class ''event'') nodes) = [False, False, True]"
  using times_block_omitted_iff_all_day[OF demo_events_render demo_agenda]
  by (simp add: demo_all_day)

text \<open>
  Claim C3, as stated, fails: two events on the first of January get one date header,
  not two. \<^verbatim>\<open>var lastDateHeader;\<close> inside the loop body declares a variable of the whole
  function and assigns nothing, so the date of the last header is still there when the
  second event is tested.
\<close>

theorem header_per_event_counterexample:
  "\<not> isl (showEventsFromFeed demo_env (Some same_day_events) demo_popup) \<and>
   length (filter (node_has_class ''date-header'')
     (children_at [1, 2]
        (dom (state_of (showEventsFromFeed demo_env (Some same_day_events) demo_popup))))) = 1 \<and>
   length same_day_events = 2"
  by code_simp

lemma header_events_render: "\<forall>e\<in>set header_events. renders demo_env e"
  by (simp add: header_events_def demo_event_def renders_def demo_env_def parse_moment_def)

lemma header_events_expected:
  "header_expected demo_env None header_events = [True, False, True, False, True]"
  by code_simp

text \<open>
  Claim C3, amended. \<^verbatim>\<open>showEventsFromFeed_\<close> appends a date header right before the
  division of an event exactly when the event is the first of the call or its start date
  (the start with hour, minute and second set to 0) is more than 23 hours after the date
  of the header appended last; every other event follows the division before it with no
  header in between. \<^const>\<open>header_expected\<close> says which events these are, from the dates
  alone.
\<close>

theorem header_iff_first_or_day_later:
  assumes "\<forall>e\<in>set events. renders env e" and "find_id ''agenda'' (dom s) = Some pg"
  shows "\<exists>s' nodes. showEventsFromFeed env (Some events) s = Inr s' \<and>
           children_at pg (dom s') = children_at pg (dom s) @ nodes \<and>
           map (node_has_class ''date-header'') nodes =
             concat (map (\<lambda>h. if h then [True, False] else [False])
                         (header_expected env None events))"
proof -
  have "\<exists>nodes. feed_loop env None events = (nodes, None) \<and>
          map (node_has_class ''date-header'') nodes =
            concat (map (\<lambda>h. if h then [True, False] else [False])
                        (header_expected env None events))"
  proof (rule feed_loop_shape[OF assms(1)], goal_cases)
    case (1 l)
    show ?case by simp
  next
    case (2 l e es st f rest)
    then show ?case
      by (cases l) (simp_all add: needs_header_def startDate_def Let_def)
  qed
  then obtain nodes where n: "feed_loop env None events = (nodes, None)"
    and m: "map (node_has_class ''date-header'') nodes =
              concat (map (\<lambda>h. if h then [True, False] else [False])
                          (header_expected env None events))"
    by blast
  from showEventsFromFeed_appends[OF assms(2) n] m show ?thesis by blast
qed

theorem header_iff_first_or_day_later_witness:
  "\<exists>s' nodes. showEventsFromFeed demo_env (Some header_events) demo_popup = Inr s' \<and>
     children_at [1, 2] (dom s') = children_at [1, 2] (dom demo_popup) @ nodes \<and>
     map (node_has_class ''date-header'') nodes =
       [True, False, False, True, False, False, True, False]"
  using header_iff_first_or_day_later[OF header_events_render demo_agenda]
  by (simp add: header_events_expected)

text \<open>
  Claim C7. For every feed event the start and end strings go through
  \<^verbatim>\<open>utils.fromIso8601\<close>; the text of a date header is the start date formatted with
  \<^verbatim>\<open>dddd MMMM, D\<close>, and for every event that is not all-day the texts of the start and
  the end span are the parsed start and the parsed end formatted with \<^verbatim>\<open>h:mma\<close>
  (\<^const>\<open>header_text\<close> and \<^const>\<open>time_texts\<close> say so without the loop).
\<close>

theorem dates_parsed_and_formatted:
  assumes "\<forall>e\<in>set events. renders env e" and "find_id ''agenda'' (dom s) = Some pg"
  shows "\<exists>s' nodes. showEventsFromFeed env (Some events) s = Inr s' \<and>
           children_at pg (dom s') = children_at pg (dom s) @ nodes \<and>
           map children_of (filter (node_has_class ''date-header'') nodes) =
             map (header_text env)
                 (map snd (filter fst (zip (header_flags env None events) events))) \<and>
           map (\<lambda>n. map children_of (within ''start'' n))
               (filter (node_has_class ''event'') nodes) =
             map (\<lambda>e. time_texts env e start) events \<and>
           map (\<lambda>n. map children_of (within ''end'' n))
               (filter (node_has_class ''event'') nodes) =
             map (\<lambda>e. time_texts env e ev_end) events"
proof -
  have "\<exists>nodes. feed_loop env None events = (nodes, None) \<and>
          (map children_of (filter (node_has_class ''date-header'') nodes) =
             map (header_text env)
                 (map snd (filter fst (zip (header_flags env None events) events))) \<and>
           map (\<lambda>n. map children_of (within ''start'' n))
               (filter (node_has_class ''event'') nodes) =
             map (\<lambda>e. time_texts env e start) events \<and>
           map (\<lambda>n. map children_of (within ''end'' n))
               (filter (node_has_class ''event'') nodes) =
             map (\<lambda>e. time_texts env e ev_end) events)"
  proof (rule feed_loop_shape[OF assms(1)], goal_cases)
    case (1 l)
    show ?case by simp
  next
    case (2 l e es st f rest)
    then show ?case
      using all_day_end[of env e]
      by (auto simp: within_start_eventDiv within_end_eventDiv header_text_def time_texts_def)
  qed
  then obtain nodes where n: "feed_loop env None events = (nodes, None)"
    and m: "map children_of (filter (node_has_class ''date-header'') nodes) =
             map (header_text env)
                 (map snd (filter fst (zip (header_flags env None events) events)))"
           "map (\<lambda>n. map children_of (within ''start'' n))
               (filter (node_has_class ''event'') nodes) =
             map (\<lambda>e. time_texts env e start) events"
           "map (\<lambda>n. map children_of (within ''end'' n))
               (filter (node_has_class ''event'') nodes) =
             map (\<lambda>e. time_texts env e ev_end) events"
    by blast
  from showEventsFromFeed_appends[OF assms(2) n] m show ?thesis by blast
qed

lemma demo_texts:
  "map (header_text demo_env)
     (map snd (filter fst (zip (header_flags demo_env None demo_events) demo_events))) =
     [[Text ''Tuesday January, 1''], [Text ''Thursday January, 3'']]"
  "map (\<lambda>e. time_texts demo_env e start) demo_events =
     [[[Text ''9:00am'']], [[Text ''11:00am'']], []]"
  "map (\<lambda>e. time_texts demo_env e ev_end) demo_events =
     [[[Text ''9:30am'']], [[Text ''12:30pm'']], []]"
  by code_simp+

theorem dates_parsed_and_formatted_witness:
  "\<exists>s' nodes. showEventsFromFeed demo_env (Some demo_events) demo_popup = Inr s' \<and>
     children_at [1, 2] (dom s') = children_at [1, 2] (dom demo_popup) @ nodes \<and>
     map children_of (filter (node_has_class ''date-header'') nodes) =
       [[Text ''Tuesday January, 1''], [Text ''Thursday January, 3'']] \<and>
     map (\<lambda>n. map children_of (within ''start'' n)) (filter (node_has_class ''event'') nodes) =
       [[[Text ''9:00am'']], [[Text ''11:00am'']], []] \<and>
     map (\<lambda>n. map children_of (within ''end'' n)) (filter (node_has_class ''event'') nodes) =
       [[[Text ''9:30am'']], [[Text ''12:30pm'']], []]"
  by (rule dates_parsed_and_formatted[OF demo_events_render demo_agenda, unfolded demo_texts])

section \<open>The requests made to the browser\<close>

lemma extends_refl [simp]: "extends s s"
  by (simp add: extends_def)

lemma extendsI: "effects s' = effects s @ es \<Longrightarrow> list_all allowed es \<Longrightarrow> extends s s'"
  by (simp add: extends_def)

lemma extendsD: "extends s s' \<Longrightarrow> \<exists>es. effects s' = effects s @ es \<and> list_all allowed es"
  unfolding extends_def by (metis append_take_drop_id)

lemma extends_trans: "extends s s' \<Longrightarrow> extends s' s'' \<Longrightarrow> extends s s''"
  by (auto dest!: extendsD intro!: extendsI[where es="_ @ _"])

lemma extends_dom [simp]: "extends s (s'\<lparr>dom := d\<rparr>) = extends s s'"
  by (simp add: extends_def)

lemma extends_sendMessage:
  "allowed (SendMessage m cb) \<Longrightarrow> extends s (sendMessage m cb s)"
  by (rule extendsI[where es="[SendMessage m cb]"]) (simp_all add: sendMessage_def)

lemma extends_run_handler: "extends s (run_handler h q s)"
  by (cases h) (auto intro!: extends_sendMessage extendsI[where es="[TabsCreate _]"] simp: allowed_def)

lemma extends_fold:
  "(\<And>x s. extends s (f x s)) \<Longrightarrow> extends s (fold f xs s)"
  by (induction xs arbitrary: s) (auto intro: extends_trans)

lemma extends_dispatch: "extends s (dispatch q s)"
  unfolding dispatch_def by (rule extends_fold) (rule extends_run_handler)

lemma extends_click: "extends s (click p s)"
  unfolding click_def by (auto split: option.splits intro: extends_fold extends_dispatch)

lemma extends_click_id: "extends s (click_id x s)"
  by (simp add: click_id_def extends_click split: option.splits)

lemma extends_click_id_dom: "extends s (click_id x (s\<lparr>dom := d\<rparr>))"
  using extends_click_id[of "s\<lparr>dom := d\<rparr>" x] extends_trans[of s "s\<lparr>dom := d\<rparr>"]
  by simp

lemma extends_badgeTextCallback: "extends s (badgeTextCallback text s)"
  unfolding badgeTextCallback_def
  using extends_sendMessage[of "''events.feed.fetch''" ShowEventsFromFeed]
    extends_trans[of s "s\<lparr>dom := _\<rparr>"]
  by (auto simp: allowed_def)

lemma extends_detectedEventsCallback: "extends s (detectedEventsCallback env evs s)"
  by (simp add: detectedEventsCallback_def extends_click_id_dom split: option.splits)

lemma extends_showEventsFromFeed: "extends s (state_of (showEventsFromFeed env evs s))"
  by (simp add: showEventsFromFeed_def state_of_def split: option.splits prod.splits)

lemma extends_react: "extends s (state_of (react env i s))"
  by (cases i)
     (simp_all add: state_of_def extends_click extends_badgeTextCallback
        extends_detectedEventsCallback extends_showEventsFromFeed[unfolded state_of_def])

lemma extends_run: "extends s (run env is s)"
  by (induction "is" arbitrary: s) (auto intro: extends_trans extends_react)

lemma extends_installTabStripClickHandlers: "extends s (installTabStripClickHandlers s)"
  by (simp add: installTabStripClickHandlers_def extends_click_id_dom)

lemma extends_initialize: "extends s (state_of (initialize env s))"
proof (cases "fillMessages env s")
  case (Inl a)
  then show ?thesis
    by (auto simp: initialize_def state_of_def fillMessages_def split: sum.splits prod.splits)
next
  case (Inr s1)
  then have 1: "extends s s1"
    by (auto simp: fillMessages_def split: sum.splits prod.splits)
  have 2: "extends s1 (installTabStripClickHandlers s1)"
    by (rule extends_installTabStripClickHandlers)
  let ?s2 = "installTabStripClickHandlers s1"
  have 3: "extends ?s2 (sendMessage ''events.feed.get'' ShowEventsFromFeed
                (showDetectedEvents
                  (showLoginMessageIfNotAuthenticated
                    (installButtonClickHandlers ?s2))))"
    by (rule extendsI[where es="[GetBadgeText BadgeTextCallback,
          SendMessage ''events.detected.get'' DetectedEventsCallback,
          SendMessage ''events.feed.get'' ShowEventsFromFeed]"])
       (simp_all add: sendMessage_def showDetectedEvents_def
          showLoginMessageIfNotAuthenticated_def installButtonClickHandlers_def allowed_def)
  show ?thesis
    using Inr extends_trans[OF 1 extends_trans[OF 2 3]]
    by (simp add: initialize_def state_of_def)
qed

text \<open>
  Claim C8. The popup never fetches calendar data itself. Whatever the page, the
  environment and the sequence of clicks and answers after \<^verbatim>\<open>initialize\<close>, every request
  the script makes is a message to the background page with method
  \<^verbatim>\<open>events.feed.get\<close>, \<^verbatim>\<open>events.feed.fetch\<close> (both answered to \<^verbatim>\<open>showEventsFromFeed_\<close>) or
  \<^verbatim>\<open>events.detected.get\<close> (answered to the callback of \<^verbatim>\<open>showDetectedEvents_\<close>), a request
  for the badge text, or the opening of a tab; events reach the script only as the
  answers to those messages.
\<close>

theorem only_messages_to_background_page:
  "extends s (run env inputs (state_of (initialize env s)))"
  using extends_trans[OF extends_initialize extends_run] .

lemma demo_session:
  "methods_sent (effects (run demo_env
      [BadgeText ''?'', FeedEvents (Some demo_events), Click [2], Click [1, 2, 1],
       DetectedEvents (Some same_day_events)]
      (state_of (initialize demo_env demo_popup)))) =
   [''events.detected.get'', ''events.feed.get'', ''events.feed.fetch'',
    ''events.feed.fetch'']"
  by code_simp

theorem only_messages_to_background_page_witness:
  "extends demo_popup (run demo_env
      [BadgeText ''?'', FeedEvents (Some demo_events), Click [2], Click [1, 2, 1],
       DetectedEvents (Some same_day_events)]
      (state_of (initialize demo_env demo_popup))) \<and>
   methods_sent (effects (run demo_env
      [BadgeText ''?'', FeedEvents (Some demo_events), Click [2], Click [1, 2, 1],
       DetectedEvents (Some same_day_events)]
      (state_of (initialize demo_env demo_popup)))) =
   [''events.detected.get'', ''events.feed.get'', ''events.feed.fetch'',
    ''events.feed.fetch'']"
  using only_messages_to_background_page[of demo_popup demo_env
      "[BadgeText ''?'', FeedEvents (Some demo_events), Click [2], Click [1, 2, 1],
       DetectedEvents (Some same_day_events)]"] demo_session
  by simp

section \<open>Handlers and elements\<close>

lemma every_element_Nil [simp]: "every_element P []"
  by (simp add: every_element_def all_elements_def)

lemma every_element_Cons_Element [simp]:
  "every_element P (Element e cs # ns) \<longleftrightarrow> P e \<and> every_element P cs \<and> every_element P ns"
  by (simp add: every_element_def all_elements_def)

lemma every_element_Cons_Text [simp]:
  "every_element P (Text t # ns) \<longleftrightarrow> every_element P ns"
  by (simp add: every_element_def all_elements_def)

lemma every_element_nth:
  "every_element P d \<Longrightarrow> i < length d \<Longrightarrow> d ! i = Element e cs \<Longrightarrow> P e \<and> every_element P cs"
proof (induction d arbitrary: i)
  case Nil
  then show ?case by simp
next
  case (Cons n ns)
  then show ?case by (cases i; cases n) auto
qed

lemma every_element_elem_at:
  "every_element P d \<Longrightarrow> elem_at p d = Some e \<Longrightarrow> P e"
proof (induction p arbitrary: d)
  case Nil
  then show ?case by simp
next
  case (Cons i p)
  show ?case
  proof (cases "p = []")
    case True
    with Cons.prems show ?thesis
      by (auto simp: elem_at_single split: if_splits node.splits dest: every_element_nth)
  next
    case False
    with Cons.prems Cons.IH show ?thesis
      by (auto simp: elem_at_Cons split: if_splits node.splits dest: every_element_nth)
  qed
qed

lemma handlers_attr_set [simp]: "handlers (attr_set n v e) = handlers e"
  by (simp add: attr_set_def split: option.splits)

lemma each_i18n_no_handlers:
  "each_i18n gm d = Inr d' \<Longrightarrow> no_handlers d \<Longrightarrow> no_handlers d'"
  unfolding no_handlers_def
proof (induction gm d arbitrary: d' rule: each_i18n.induct)
  case (1 gm)
  then show ?case by simp
next
  case (2 gm e cs ns)
  then show ?case
    by (auto split: if_splits option.splits sum.splits prod.splits simp: text_set_def)
next
  case (3 gm t ns)
  then show ?case by (auto split: sum.splits prod.splits)
qed

lemma each_i18n_returns: "i18n_has_id d \<Longrightarrow> \<exists>d'. each_i18n gm d = Inr d'"
  unfolding i18n_has_id_def
proof (induction d rule: count_elements.induct)
  case 1
  then show ?case by simp
next
  case (2 e cs ns)
  then obtain cs' ns' where "each_i18n gm cs = Inr cs'" "each_i18n gm ns = Inr ns'"
    by auto
  with 2(3) show ?case by (auto split: option.splits)
next
  case (3 t ns)
  then show ?case by auto
qed

lemma elem_at_set_all:
  "elem_at q (set_all sel g d) = map_option (\<lambda>e. if sel e then g e else e) (elem_at q d)"
  by (simp add: set_all_def elem_at_map_elements)

lemma elem_at_set_id:
  "elem_at q (set_id x g d) =
     (if find_id x d = Some q then map_option g (elem_at q d) else elem_at q d)"
  by (auto simp: set_id_def elem_at_update split: option.splits)

lemma handlers_at_set_all:
  "(\<And>e. handlers (g e) = handlers e) \<Longrightarrow> handlers_at q (set_all sel g d) = handlers_at q d"
  by (cases "elem_at q d") (simp_all add: handlers_at_def elem_at_set_all)

lemma handlers_at_set_id:
  "(\<And>e. handlers (g e) = handlers e) \<Longrightarrow> handlers_at q (set_id x g d) = handlers_at q d"
  by (cases "elem_at q d") (simp_all add: handlers_at_def elem_at_set_id)

lemma handlers_simps [simp]:
  "handlers (addClass c e) = handlers e"
  "handlers (removeClass c e) = handlers e"
  "handlers (hide e) = handlers e"
  "handlers (show_elem e) = handlers e"
  by (simp_all add: addClass_def removeClass_def hide_def show_elem_def)

lemma handlers_at_tab_clicked [simp]:
  "handlers_at q (addEventsClicked d) = handlers_at q d"
  "handlers_at q (viewAgendaClicked d) = handlers_at q d"
  by (simp_all add: addEventsClicked_def viewAgendaClicked_def handlers_at_set_all
      handlers_at_set_id)

lemma handlers_at_bind_click:
  "set (handlers_at q (set_id x (bind_click h) d)) \<subseteq> insert h (set (handlers_at q d))"
  by (cases "elem_at q d") (auto simp: handlers_at_def elem_at_set_id bind_click_def)

lemma fold_tab_handlers:
  "set hs \<subseteq> {AddEventsClick, ViewAgendaClick} \<Longrightarrow>
   effects (fold (\<lambda>h. run_handler h q) hs s) = effects s \<and>
   (\<forall>q'. handlers_at q' (dom (fold (\<lambda>h. run_handler h q) hs s)) = handlers_at q' (dom s))"
proof (induction hs arbitrary: s)
  case Nil
  then show ?case by simp
next
  case (Cons h hs)
  then have "h = AddEventsClick \<or> h = ViewAgendaClick" by auto
  then show ?case using Cons by auto
qed

lemma fold_dispatch_tab_only:
  "\<forall>q. set (handlers_at q (dom s)) \<subseteq> {AddEventsClick, ViewAgendaClick} \<Longrightarrow>
   effects (fold dispatch qs s) = effects s \<and>
   (\<forall>q'. handlers_at q' (dom (fold dispatch qs s)) = handlers_at q' (dom s))"
proof (induction qs arbitrary: s)
  case Nil
  then show ?case by simp
next
  case (Cons q qs)
  from Cons.prems fold_tab_handlers[of "handlers_at q (dom s)" q s]
  have d: "effects (dispatch q s) = effects s"
    "\<forall>q'. handlers_at q' (dom (dispatch q s)) = handlers_at q' (dom s)"
    by (simp_all add: dispatch_def)
  with Cons.prems have "\<forall>q'. set (handlers_at q' (dom (dispatch q s))) \<subseteq> {AddEventsClick, ViewAgendaClick}"
    by simp
  from Cons.IH[OF this] d show ?case by simp
qed

lemma click_id_tab_only:
  "\<forall>q. set (handlers_at q (dom s)) \<subseteq> {AddEventsClick, ViewAgendaClick} \<Longrightarrow>
   effects (click_id x s) = effects s"
  by (simp add: click_id_def click_def fold_dispatch_tab_only split: option.splits)

lemma no_handlers_handlers_at: "no_handlers d \<Longrightarrow> handlers_at q d = []"
  unfolding no_handlers_def handlers_at_def
  by (auto split: option.splits dest: every_element_elem_at)

lemma effects_installTabStripClickHandlers:
  assumes "no_handlers (dom s)"
  shows "effects (installTabStripClickHandlers s) = effects s"
proof -
  let ?d = "set_id ''view_agenda'' (bind_click ViewAgendaClick)
              (set_id ''add-events'' (bind_click AddEventsClick) (dom s))"
  have "set (handlers_at q ?d) \<subseteq> {AddEventsClick, ViewAgendaClick}" for q
    using handlers_at_bind_click[of q "''view_agenda''" ViewAgendaClick
            "set_id ''add-events'' (bind_click AddEventsClick) (dom s)"]
      handlers_at_bind_click[of q "''add-events''" AddEventsClick "dom s"]
      no_handlers_handlers_at[OF assms, of q]
    by auto
  then have "effects (click_id ''view_agenda'' (s\<lparr>dom := ?d\<rparr>)) = effects (s\<lparr>dom := ?d\<rparr>)"
    by (intro click_id_tab_only) simp
  then show ?thesis by (simp add: installTabStripClickHandlers_def)
qed

lemma fillMessages_returns:
  assumes "i18n_has_id (dom s)"
  shows "\<exists>d'. each_i18n (getMessage env) (dom s) = Inr d' \<and>
     fillMessages env s =
       Inr (s\<lparr>dom := set_all (\<lambda>e. attr_get ''data-href'' e = Some ''calendar_ui_url'')
                               (attr_set ''href'' (Some CALENDAR_UI_URL)) d'\<rparr>)"
  using each_i18n_returns[OF assms, of "getMessage env"]
  by (auto simp: fillMessages_def)

lemma every_element_map_elements:
  "(\<And>e. P e \<Longrightarrow> Q (g e)) \<Longrightarrow> every_element P d \<Longrightarrow>
   every_element Q (map (map_elements g) d)"
  by (induction d rule: count_elements.induct) auto

lemma no_handlers_set_all:
  "(\<And>e. handlers (g e) = handlers e) \<Longrightarrow> no_handlers d \<Longrightarrow> no_handlers (set_all sel g d)"
  unfolding no_handlers_def set_all_def
  by (rule every_element_map_elements) auto

lemma demo_no_handlers: "no_handlers (dom demo_popup)"
  by code_simp

lemma demo_i18n_has_id: "i18n_has_id (dom demo_popup)"
  by code_simp

text \<open>
  Claim C1, as stated, fails: with the badge text \<^verbatim>\<open>?\<close> the initialization of the popup
  sends three messages, the third one \<^verbatim>\<open>events.feed.fetch\<close> from the badge text callback.
\<close>

theorem two_messages_counterexample:
  "\<not> isl (initialize demo_env demo_popup) \<and>
   methods_sent (effects (badgeTextCallback ''?'' (state_of (initialize demo_env demo_popup)))) =
     [''events.detected.get'', ''events.feed.get'', ''events.feed.fetch'']"
  by code_simp

text \<open>
  Claim C1, amended. On a page where every \<^verbatim>\<open>i18n\<close> element has an id and no click
  handler is bound yet, \<^verbatim>\<open>initialize\<close> returns and makes exactly three requests: the badge
  text, the message \<^verbatim>\<open>events.detected.get\<close> and the message \<^verbatim>\<open>events.feed.get\<close>, in this
  order. When the badge text arrives, one more message, \<^verbatim>\<open>events.feed.fetch\<close>, is sent
  exactly when the text is \<^verbatim>\<open>?\<close>.
\<close>

theorem messages_of_initialization:
  assumes "no_handlers (dom s)" and "i18n_has_id (dom s)"
  shows "\<exists>s'. initialize env s = Inr s' \<and>
     effects s' = effects s @
       [GetBadgeText BadgeTextCallback,
        SendMessage ''events.detected.get'' DetectedEventsCallback,
        SendMessage ''events.feed.get'' ShowEventsFromFeed] \<and>
     effects (badgeTextCallback text s') = effects s' @
       (if text = ''?'' then [SendMessage ''events.feed.fetch'' ShowEventsFromFeed] else [])"
proof -
  from fillMessages_returns[OF assms(2), of env] obtain d' where
    e: "each_i18n (getMessage env) (dom s) = Inr d'" and
    f: "fillMessages env s =
       Inr (s\<lparr>dom := set_all (\<lambda>e. attr_get ''data-href'' e = Some ''calendar_ui_url'')
                               (attr_set ''href'' (Some CALENDAR_UI_URL)) d'\<rparr>)"
    by blast
  let ?s1 = "s\<lparr>dom := set_all (\<lambda>e. attr_get ''data-href'' e = Some ''calendar_ui_url'')
                               (attr_set ''href'' (Some CALENDAR_UI_URL)) d'\<rparr>"
  have "no_handlers (dom ?s1)"
    using each_i18n_no_handlers[OF e assms(1)] by (simp add: no_handlers_set_all)
  from effects_installTabStripClickHandlers[OF this]
  have "effects (installTabStripClickHandlers ?s1) = effects s" by simp
  then show ?thesis
    using f
    by (simp add: initialize_def sendMessage_def showDetectedEvents_def
        showLoginMessageIfNotAuthenticated_def installButtonClickHandlers_def
        badgeTextCallback_def)
qed

theorem messages_of_initialization_witness:
  "\<exists>s'. initialize demo_env demo_popup = Inr s' \<and>
     effects s' = effects demo_popup @
       [GetBadgeText BadgeTextCallback,
        SendMessage ''events.detected.get'' DetectedEventsCallback,
        SendMessage ''events.feed.get'' ShowEventsFromFeed] \<and>
     effects (badgeTextCallback ''?'' s') = effects s' @
       [SendMessage ''events.feed.fetch'' ShowEventsFromFeed]"
  using messages_of_initialization[OF demo_no_handlers demo_i18n_has_id, of demo_env "''?''"]
  by simp

section \<open>The login message and the badge text\<close>

lemma ident_simps [simp]:
  "ident (addClass c e) = ident e"
  "ident (removeClass c e) = ident e"
  "ident (hide e) = ident e"
  "ident (show_elem e) = ident e"
  "ident (bind_click h e) = ident e"
  "ident (attr_set n v e) = ident e"
  by (simp_all add: addClass_def removeClass_def hide_def show_elem_def bind_click_def
      attr_set_def split: option.splits)

lemma find_id_elem_at:
  "find_id x d = Some p \<Longrightarrow> \<exists>e. elem_at p d = Some e \<and> ident e = Some x"
  using find_id_node[of x d p] by (auto simp: elem_at_def)

text \<open>
  Claim C2. When the badge text is exactly \<^verbatim>\<open>?\<close>, the callback hides every
  \<^verbatim>\<open>tab-container\<close> element, shows the \<^verbatim>\<open>error\<close> element and sends the message
  \<^verbatim>\<open>events.feed.fetch\<close>; for every other text it shows the tab containers, hides the error
  element and sends nothing. (The error element itself is left out of the tab containers:
  it is set last.)
\<close>

theorem login_message_follows_badge_text:
  "(text = ''?'' \<longrightarrow>
      effects (badgeTextCallback text s) =
        effects s @ [SendMessage ''events.feed.fetch'' ShowEventsFromFeed]) \<and>
   (text \<noteq> ''?'' \<longrightarrow> effects (badgeTextCallback text s) = effects s) \<and>
   (\<forall>q e. elem_at q (dom (badgeTextCallback text s)) = Some e \<and>
          hasClass ''tab-container'' e \<and> find_id ''error'' (dom s) \<noteq> Some q \<longrightarrow>
          shown e = (text \<noteq> ''?'')) \<and>
   (\<forall>q. find_id ''error'' (dom s) = Some q \<longrightarrow>
        find_id ''error'' (dom (badgeTextCallback text s)) = Some q \<and>
        (\<exists>e. elem_at q (dom (badgeTextCallback text s)) = Some e \<and>
             shown e = (text = ''?'')))"
proof (intro conjI allI impI)
  assume "text = ''?''"
  then show "effects (badgeTextCallback text s) =
        effects s @ [SendMessage ''events.feed.fetch'' ShowEventsFromFeed]"
    by (simp add: badgeTextCallback_def sendMessage_def)
next
  assume "text \<noteq> ''?''"
  then show "effects (badgeTextCallback text s) = effects s"
    by (simp add: badgeTextCallback_def)
next
  fix q e
  assume a: "elem_at q (dom (badgeTextCallback text s)) = Some e \<and>
          hasClass ''tab-container'' e \<and> find_id ''error'' (dom s) \<noteq> Some q"
  then show "shown e = (text \<noteq> ''?'')"
    by (cases "elem_at q (dom s)")
       (auto simp: badgeTextCallback_def sendMessage_def elem_at_set_id elem_at_set_all
          find_id_set_all hide_def show_elem_def hasClass_def split: if_splits)
next
  fix q
  assume "find_id ''error'' (dom s) = Some q"
  then show "find_id ''error'' (dom (badgeTextCallback text s)) = Some q"
    by (simp add: badgeTextCallback_def sendMessage_def find_id_set_id find_id_set_all)
next
  fix q
  assume f: "find_id ''error'' (dom s) = Some q"
  from find_id_elem_at[OF f] obtain e where "elem_at q (dom s) = Some e" by blast
  with f show "\<exists>e. elem_at q (dom (badgeTextCallback text s)) = Some e \<and>
             shown e = (text = ''?'')"
    by (simp add: badgeTextCallback_def sendMessage_def elem_at_set_id elem_at_set_all
          find_id_set_all hide_def show_elem_def)
qed

lemma demo_error: "find_id ''error'' (dom demo_popup) = Some [0]"
  by code_simp

lemma demo_container:
  "elem_at [1] (dom (badgeTextCallback ''?'' demo_popup)) =
     Some ((el ''DIV'' None [''tab-container''] [])\<lparr>shown := False\<rparr>)"
  by code_simp

theorem login_message_follows_badge_text_witness:
  "effects (badgeTextCallback ''?'' demo_popup) =
     effects demo_popup @ [SendMessage ''events.feed.fetch'' ShowEventsFromFeed] \<and>
   (\<exists>e. elem_at [1] (dom (badgeTextCallback ''?'' demo_popup)) = Some e \<and>
        hasClass ''tab-container'' e \<and> \<not> shown e) \<and>
   find_id ''error'' (dom (badgeTextCallback ''?'' demo_popup)) = Some [0] \<and>
   (\<exists>e. elem_at [0] (dom (badgeTextCallback ''?'' demo_popup)) = Some e \<and> shown e)"
proof -
  note t = login_message_follows_badge_text[of "''?''" demo_popup]
  have 1: "effects (badgeTextCallback ''?'' demo_popup) =
     effects demo_popup @ [SendMessage ''events.feed.fetch'' ShowEventsFromFeed]"
    using t by simp
  have c: "hasClass ''tab-container'' ((el ''DIV'' None [''tab-container''] [])\<lparr>shown := False\<rparr>)"
    by (simp add: hasClass_def el_def)
  with t demo_container demo_error
  have "\<not> shown ((el ''DIV'' None [''tab-container''] [])\<lparr>shown := False\<rparr>)"
    by simp
  with c demo_container
  have 2: "\<exists>e. elem_at [1] (dom (badgeTextCallback ''?'' demo_popup)) = Some e \<and>
        hasClass ''tab-container'' e \<and> \<not> shown e"
    by blast
  have 3: "find_id ''error'' (dom (badgeTextCallback ''?'' demo_popup)) = Some [0] \<and>
   (\<exists>e. elem_at [0] (dom (badgeTextCallback ''?'' demo_popup)) = Some e \<and> shown e)"
    using t demo_error by simp
  from 1 2 3 show ?thesis by blast
qed

section \<open>The localized messages\<close>

lemma all_elements_simps [simp]:
  "all_elements [] = []"
  "all_elements (Element e cs # ns) = Element e cs # all_elements cs @ all_elements ns"
  "all_elements (Text t # ns) = all_elements ns"
  by (simp_all add: all_elements_def)


lemma simple_attr_set [simp]:
  "tagName (attr_set m v e) = tagName e"
  "hasClass c (attr_set m v e) = hasClass c e"
  by (cases v; simp add: attr_set_def hasClass_def)+









section \<open>Clicks\<close>

lemma node_at_snoc:
  "p \<noteq> [] \<Longrightarrow> node_at (p @ [i]) d =
     (case node_at p d of
        Some (Element e cs) \<Rightarrow> (if i < length cs then Some (cs ! i) else None)
      | _ \<Rightarrow> None)"
proof (induction p arbitrary: d)
  case Nil
  then show ?case by simp
next
  case (Cons j p)
  show ?case
  proof (cases "p = []")
    case True
    then show ?thesis by (auto split: node.splits)
  next
    case False
    then obtain k p' where p: "p = k # p'" by (cases p) auto
    from Cons.IH[OF False] show ?thesis
      by (auto simp: p split: node.splits)
  qed
qed

lemma bubble_path_Cons: "p \<noteq> [] \<Longrightarrow> \<exists>qs. bubble_path p = p # qs"
  by (cases p rule: rev_cases) (auto simp: bubble_path_def)

lemma effects_fold_dispatch: "\<exists>es. effects (fold dispatch qs s) = effects s @ es"
  using extends_fold[of dispatch s qs, OF extends_dispatch] extendsD by blast

lemma click_after_dispatch:
  assumes "elem_at p (dom s) = Some e"
  shows "\<exists>es. effects (click p s) = effects (dispatch p s) @ es"
proof -
  from assms have "p \<noteq> []" by auto
  from bubble_path_Cons[OF this] obtain qs where "bubble_path p = p # qs" by blast
  with assms effects_fold_dispatch[of qs "dispatch p s"] show ?thesis
    by (simp add: click_def)
qed

lemma effects_fold_run_handler:
  "\<exists>es. effects (fold (\<lambda>h. run_handler h q) hs s) = effects s @ es"
  using extends_fold[of "\<lambda>h. run_handler h q" s hs, OF extends_run_handler] extendsD by blast

lemma dispatch_last_SyncNow:
  assumes "handlers_at p (dom s) = hs @ [SyncNowClick]"
  shows "\<exists>es. effects (dispatch p s) =
           effects s @ es @ [SendMessage ''events.feed.fetch'' ShowEventsFromFeed]"
  using assms effects_fold_run_handler[of p hs s]
  by (auto simp: dispatch_def sendMessage_def)

lemma sync_now_click:
  assumes "find_id ''sync_now'' (dom s) = Some p"
  shows "\<exists>es es'. effects (click p (installButtonClickHandlers s)) =
     effects s @ es @ SendMessage ''events.feed.fetch'' ShowEventsFromFeed # es'"
proof -
  from find_id_elem_at[OF assms] obtain e where e: "elem_at p (dom s) = Some e" by blast
  let ?s1 = "installButtonClickHandlers s"
  have e1: "elem_at p (dom ?s1) = Some (bind_click SyncNowClick e)"
    using assms e by (simp add: installButtonClickHandlers_def elem_at_set_id)
  then have "handlers_at p (dom ?s1) = handlers e @ [SyncNowClick]"
    by (simp add: handlers_at_def bind_click_def)
  from dispatch_last_SyncNow[OF this] obtain es where
    "effects (dispatch p ?s1) =
       effects ?s1 @ es @ [SendMessage ''events.feed.fetch'' ShowEventsFromFeed]"
    by blast
  moreover from click_after_dispatch[OF e1] obtain es' where
    "effects (click p ?s1) = effects (dispatch p ?s1) @ es'" by blast
  moreover have "effects ?s1 = effects s" by (simp add: installButtonClickHandlers_def)
  ultimately show ?thesis by auto
qed

lemma handlers_eventDivElement [simp]: "handlers (eventDivElement ev) = [EventDivClick]"
  by (simp add: eventDivElement_def bind_click_def create_def addClass_def)

lemma data_url_eventDivElement [simp]: "attr_get ''data-url'' (eventDivElement ev) = url ev"
  by (cases "url ev")
     (simp_all add: eventDivElement_def bind_click_def create_def addClass_def
        attr_get_def attr_set_def)

lemma event_div_click:
  assumes "elem_at p (dom s) = Some (eventDivElement ev)"
  shows "\<exists>es. effects (click p s) = effects s @ TabsCreate (url ev) # es"
proof -
  from assms have "effects (dispatch p s) = effects s @ [TabsCreate (url ev)]"
    by (simp add: dispatch_def handlers_at_def)
  with click_after_dispatch[OF assms] show ?thesis by auto
qed


lemma node_at_append_id:
  "find_id x d = Some p \<Longrightarrow>
   \<exists>e. node_at p (append_id x new d) = Some (Element e (children_at p d @ new))"
  using find_id_node[of x d p]
  by (auto simp: children_at_def append_id_def node_at_update_same append_children_def)

lemma elem_at_appended:
  assumes "find_id x d = Some p" and "j < length new" and "new ! j = Element dv cs"
  shows "elem_at (p @ [length (children_at p d) + j]) (append_id x new d) = Some dv"
proof -
  from node_at_append_id[OF assms(1), of new] obtain e where
    "node_at p (append_id x new d) = Some (Element e (children_at p d @ new))" by blast
  with assms(2,3) find_id_nonempty[OF assms(1)] show ?thesis
    by (simp add: elem_at_def node_at_snoc nth_append)
qed

lemma positions_nth:
  "map (\<lambda>j. xs ! j) (filter (\<lambda>j. P (xs ! j)) [0..<length xs]) = filter P xs"
proof -
  have "filter P xs = filter P (map (\<lambda>j. xs ! j) [0..<length xs])"
    by (simp add: map_nth)
  also have "\<dots> = map (\<lambda>j. xs ! j) (filter (\<lambda>j. P (xs ! j)) [0..<length xs])"
    by (simp add: filter_map comp_def)
  finally show ?thesis by simp
qed

lemma event_positions_filter:
  "map (\<lambda>j. nodes ! j) (event_positions nodes) = filter (node_has_class ''event'') nodes"
  unfolding event_positions_def by (rule positions_nth)

lemma event_positions_less:
  "k < length (event_positions nodes) \<Longrightarrow> event_positions nodes ! k < length nodes"
  using nth_mem[of k "event_positions nodes"] by (simp add: event_positions_def)

lemma tagName_simps [simp]:
  "tagName (addClass c e) = tagName e"
  "tagName (attr_set n v e) = tagName e"
  "tagName (css_set n w e) = tagName e"
  "tagName (bind_click h e) = tagName e"
  "tagName (create t) = t"
  by (cases v; cases w;
      simp add: addClass_def attr_set_def css_set_def bind_click_def create_def)+

lemma headings_eventDiv:
  "headings (Element (eventDivElement e)
       [feedColor f, eventDetails env e st en ad]) =
     [case title e of None \<Rightarrow> [] | Some t \<Rightarrow> [Text t]]"
  by (cases "title e"; cases ad; cases en; cases "location e";
      simp add: headings_def eventDivElement_def feedColor_def eventDetails_def
        startAndEndTimes_def text_set_def children_of_def)

lemma feed_loop_event_list:
  assumes "\<forall>e\<in>set events. renders env e"
  shows "\<exists>nodes. feed_loop env l events = (nodes, None) \<and>
     list_all2 (\<lambda>n ev. \<exists>cs. n = Element (eventDivElement ev) cs \<and>
                  headings n = [case title ev of None \<Rightarrow> [] | Some t \<Rightarrow> [Text t]])
       (filter (node_has_class ''event'') nodes) events"
  by (rule feed_loop_shape[OF assms]) (simp_all add: headings_eventDiv)

lemma node_at_appended:
  assumes "find_id x d = Some p" and "j < length new"
  shows "node_at (p @ [length (children_at p d) + j]) (append_id x new d) = Some (new ! j)"
proof -
  from node_at_append_id[OF assms(1), of new] obtain e where
    "node_at p (append_id x new d) = Some (Element e (children_at p d @ new))" by blast
  with assms(2) find_id_nonempty[OF assms(1)] show ?thesis
    by (simp add: node_at_snoc nth_append)
qed


text \<open>
  Claim C5. A click on the \<^verbatim>\<open>sync_now\<close> element, once \<^verbatim>\<open>installButtonClickHandlers_\<close> has
  run, sends the message \<^verbatim>\<open>events.feed.fetch\<close> whose answer goes to \<^verbatim>\<open>showEventsFromFeed_\<close>.
  And when \<^verbatim>\<open>showEventsFromFeed_\<close> has rendered a list of events into the agenda, the event
  divisions it appended are as many as the events and in their order; the division of the
  \<^verbatim>\<open>k\<close>-th event shows that event's title as its heading, its \<^verbatim>\<open>data-url\<close> attribute is
  the \<^verbatim>\<open>url\<close> of that event, and a click on it opens a tab with that address.
  (Handlers of enclosing elements may add requests after these.)
\<close>

theorem clicks_on_sync_now_and_event_divisions:
  assumes "find_id ''sync_now'' (dom s0) = Some ps"
    and "find_id ''agenda'' (dom s) = Some pg"
    and "\<forall>e\<in>set events. renders env e"
  shows "(\<exists>es es'. effects (click ps (installButtonClickHandlers s0)) =
            effects s0 @ es @ SendMessage ''events.feed.fetch'' ShowEventsFromFeed # es') \<and>
         (\<exists>s' nodes. showEventsFromFeed env (Some events) s = Inr s' \<and>
            children_at pg (dom s') = children_at pg (dom s) @ nodes \<and>
            length (event_positions nodes) = length events \<and>
            (\<forall>k<length events. \<exists>dv cs es.
               node_at (pg @ [length (children_at pg (dom s)) + event_positions nodes ! k])
                   (dom s') = Some (Element dv cs) \<and>
               headings (Element dv cs) =
                 [case title (events ! k) of None \<Rightarrow> [] | Some t \<Rightarrow> [Text t]] \<and>
               attr_get ''data-url'' dv = url (events ! k) \<and>
               effects (click (pg @ [length (children_at pg (dom s)) +
                                      event_positions nodes ! k]) s') =
                 effects s' @ TabsCreate (attr_get ''data-url'' dv) # es))"
proof
  show "\<exists>es es'. effects (click ps (installButtonClickHandlers s0)) =
            effects s0 @ es @ SendMessage ''events.feed.fetch'' ShowEventsFromFeed # es'"
    by (rule sync_now_click[OF assms(1)])
next
  let ?ok = "\<lambda>n ev. \<exists>cs. n = Element (eventDivElement ev) cs \<and>
                  headings n = [case title ev of None \<Rightarrow> [] | Some t \<Rightarrow> [Text t]]"
  from feed_loop_event_list[OF assms(3), of None] obtain nodes where
    n: "feed_loop env None events = (nodes, None)" and
    divs: "list_all2 ?ok (filter (node_has_class ''event'') nodes) events"
    by blast
  let ?s' = "s\<lparr>dom := append_id ''agenda'' nodes (dom s)\<rparr>"
  let ?base = "length (children_at pg (dom s))"
  have r: "showEventsFromFeed env (Some events) s = Inr ?s'"
    using n by (simp add: showEventsFromFeed_def)
  have c: "children_at pg (dom ?s') = children_at pg (dom s) @ nodes"
    using assms(2) by (simp add: children_at_append_id)
  have "length (map (\<lambda>j. nodes ! j) (event_positions nodes)) =
          length (filter (node_has_class ''event'') nodes)"
    by (simp only: event_positions_filter)
  moreover from divs have "length (filter (node_has_class ''event'') nodes) = length events"
    by (rule list_all2_lengthD)
  ultimately have len: "length (event_positions nodes) = length events"
    by simp
  have main: "\<exists>dv cs es.
          node_at (pg @ [?base + event_positions nodes ! k]) (dom ?s') = Some (Element dv cs) \<and>
          headings (Element dv cs) =
            [case title (events ! k) of None \<Rightarrow> [] | Some t \<Rightarrow> [Text t]] \<and>
          attr_get ''data-url'' dv = url (events ! k) \<and>
          effects (click (pg @ [?base + event_positions nodes ! k]) ?s') =
            effects ?s' @ TabsCreate (attr_get ''data-url'' dv) # es"
    if k: "k < length events" for k
  proof -
    let ?j = "event_positions nodes ! k"
    from k len have kp: "k < length (event_positions nodes)" by simp
    from event_positions_less[OF kp] have j: "?j < length nodes" .
    from kp have "nodes ! ?j = map (\<lambda>j. nodes ! j) (event_positions nodes) ! k"
      by simp
    then have nk: "nodes ! ?j = filter (node_has_class ''event'') nodes ! k"
      by (simp only: event_positions_filter)
    have "?ok (nodes ! ?j) (events ! k)"
      unfolding nk by (rule list_all2_nthD2[OF divs k])
    then obtain cs where
      nj: "nodes ! ?j = Element (eventDivElement (events ! k)) cs" and
      h: "headings (nodes ! ?j) =
            [case title (events ! k) of None \<Rightarrow> [] | Some t \<Rightarrow> [Text t]]"
      by blast
    from h have h': "headings (Element (eventDivElement (events ! k)) cs) =
            [case title (events ! k) of None \<Rightarrow> [] | Some t \<Rightarrow> [Text t]]"
      unfolding nj .
    from node_at_appended[OF assms(2) j] nj
    have na: "node_at (pg @ [?base + ?j]) (dom ?s') =
                Some (Element (eventDivElement (events ! k)) cs)"
      by simp
    then have dv: "elem_at (pg @ [?base + ?j]) (dom ?s') = Some (eventDivElement (events ! k))"
      by (simp add: elem_at_def)
    from event_div_click[OF dv] obtain es where
      "effects (click (pg @ [?base + ?j]) ?s') =
         effects ?s' @ TabsCreate (url (events ! k)) # es"
      by blast
    then have ck: "effects (click (pg @ [?base + ?j]) ?s') =
         effects ?s' @ TabsCreate (attr_get ''data-url'' (eventDivElement (events ! k))) # es"
      by (simp only: data_url_eventDivElement)
    show ?thesis
      by (rule exI[of _ "eventDivElement (events ! k)"], rule exI[of _ cs], rule exI[of _ es])
         (intro conjI na h' data_url_eventDivElement ck)
  qed
  show "\<exists>s' nodes. showEventsFromFeed env (Some events) s = Inr s' \<and>
            children_at pg (dom s') = children_at pg (dom s) @ nodes \<and>
            length (event_positions nodes) = length events \<and>
            (\<forall>k<length events. \<exists>dv cs es.
               node_at (pg @ [length (children_at pg (dom s)) + event_positions nodes ! k])
                   (dom s') = Some (Element dv cs) \<and>
               headings (Element dv cs) =
                 [case title (events ! k) of None \<Rightarrow> [] | Some t \<Rightarrow> [Text t]] \<and>
               attr_get ''data-url'' dv = url (events ! k) \<and>
               effects (click (pg @ [length (children_at pg (dom s)) +
                                      event_positions nodes ! k]) s') =
                 effects s' @ TabsCreate (attr_get ''data-url'' dv) # es)"
    by (rule exI[of _ ?s'], rule exI[of _ nodes]) (intro conjI allI impI r c len main)
qed

lemma demo_sync_now: "find_id ''sync_now'' (dom demo_popup) = Some [2]"
  by code_simp

lemma demo_agenda_children:
  "children_at [1, 2] (dom demo_popup) = [] \<and>
   event_positions (children_at [1, 2]
         (dom (state_of (showEventsFromFeed demo_env (Some demo_events) demo_popup)))) ! 1 = 2"
  by code_simp

lemma demo_second_event:
  "1 < length demo_events \<and>
   title (demo_events ! 1) = Some ''review'' \<and>
   url (demo_events ! 1) = Some ''https://www.google.com/calendar/event?eid=review''"
  by code_simp

theorem clicks_on_sync_now_and_event_divisions_witness:
  "(\<exists>es es'. effects (click [2] (installButtonClickHandlers demo_popup)) =
      effects demo_popup @ es @ SendMessage ''events.feed.fetch'' ShowEventsFromFeed # es') \<and>
   (\<exists>s' dv cs es. showEventsFromFeed demo_env (Some demo_events) demo_popup = Inr s' \<and>
      node_at [1, 2, 2] (dom s') = Some (Element dv cs) \<and>
      headings (Element dv cs) = [[Text ''review'']] \<and>
      attr_get ''data-url'' dv = Some ''https://www.google.com/calendar/event?eid=review'' \<and>
      effects (click [1, 2, 2] s') = effects s' @ TabsCreate (attr_get ''data-url'' dv) # es)"
proof -
  note t = clicks_on_sync_now_and_event_divisions[OF demo_sync_now demo_agenda
      demo_events_render]
  from t obtain s' nodes where
    r: "showEventsFromFeed demo_env (Some demo_events) demo_popup = Inr s'" and
    c: "children_at [1, 2] (dom s') = children_at [1, 2] (dom demo_popup) @ nodes" and
    a: "\<forall>k<length demo_events. \<exists>dv cs es.
          node_at ([1, 2] @ [length (children_at [1, 2] (dom demo_popup)) +
                              event_positions nodes ! k]) (dom s') = Some (Element dv cs) \<and>
          headings (Element dv cs) =
            [case title (demo_events ! k) of None \<Rightarrow> [] | Some t \<Rightarrow> [Text t]] \<and>
          attr_get ''data-url'' dv = url (demo_events ! k) \<and>
          effects (click ([1, 2] @ [length (children_at [1, 2] (dom demo_popup)) +
                                     event_positions nodes ! k]) s') =
            effects s' @ TabsCreate (attr_get ''data-url'' dv) # es"
    by blast
  from r have s': "s' = state_of (showEventsFromFeed demo_env (Some demo_events) demo_popup)"
    by (simp add: state_of_def)
  from demo_agenda_children have c0: "children_at [1, 2] (dom demo_popup) = []"
    by blast
  from c have nodes: "nodes = children_at [1, 2]
         (dom (state_of (showEventsFromFeed demo_env (Some demo_events) demo_popup)))"
    unfolding s' c0 by simp
  from demo_agenda_children have pos: "event_positions nodes ! 1 = 2"
    unfolding nodes by blast
  have p: "[1, 2] @ [length (children_at [1, 2] (dom demo_popup)) +
                      event_positions nodes ! 1] = [1, 2, 2::nat]"
    unfolding c0 pos by simp
  from a demo_second_event obtain dv cs es where
    "node_at ([1, 2] @ [length (children_at [1, 2] (dom demo_popup)) +
                         event_positions nodes ! 1]) (dom s') = Some (Element dv cs)"
    "headings (Element dv cs) =
       [case title (demo_events ! 1) of None \<Rightarrow> [] | Some t \<Rightarrow> [Text t]]"
    "attr_get ''data-url'' dv = url (demo_events ! 1)"
    "effects (click ([1, 2] @ [length (children_at [1, 2] (dom demo_popup)) +
                                event_positions nodes ! 1]) s') =
       effects s' @ TabsCreate (attr_get ''data-url'' dv) # es"
    by blast
  with demo_second_event have
    "node_at [1, 2, 2] (dom s') = Some (Element dv cs) \<and>
     headings (Element dv cs) = [[Text ''review'']] \<and>
     attr_get ''data-url'' dv = Some ''https://www.google.com/calendar/event?eid=review'' \<and>
     effects (click [1, 2, 2] s') = effects s' @ TabsCreate (attr_get ''data-url'' dv) # es"
    unfolding p by simp
  with t r show ?thesis by blast
qed

section \<open>The tab strip\<close>

text \<open>
  Claim C4: after initialization and after every click on the tab strip exactly one of the
  two tabs carries the class \<^verbatim>\<open>selected\<close> and only its pane is shown, the agenda tab being
  the selected one right after \<^verbatim>\<open>installTabStripClickHandlers_\<close>. On the example page the
  agenda tab at \<^verbatim>\<open>[1, 0, 1]\<close> is indeed selected after \<^verbatim>\<open>installTabStripClickHandlers_\<close> and
  after \<^verbatim>\<open>initialize\<close>, with the agenda pane at \<^verbatim>\<open>[1, 2]\<close> shown and the pane of the
  detected events at \<^verbatim>\<open>[1, 1]\<close> hidden. But the
  claim fails once a detected event is listed whose title is the markup
  \<^verbatim>\<open><div id="agenda"></div>\<close>: \<^verbatim>\<open>createEventButton_\<close> passes the title to \<^verbatim>\<open>.html\<close>, the
  element it makes lies in the pane of the detected events, before the agenda pane, and is
  what \<^verbatim>\<open>$('#agenda')\<close> finds from then on. After a click on the agenda tab that tab is
  selected and both panes are hidden.
\<close>

theorem agenda_tab_selected_without_pane:
  "(let si = installTabStripClickHandlers (state_of (fillMessages demo_env demo_popup));
        s0 = state_of (initialize demo_env demo_popup);
        s1 = run demo_env [DetectedEvents (Some [agenda_title_event])] s0;
        s2 = run demo_env [Click [1, 0, 1]] s1
    in map (\<lambda>p. (id_at p si, selected_at p si, shown_at p si))
           [[1, 0, 0], [1, 0, 1], [1, 1], [1, 2]] =
         [(Some ''add-events'', Some False, Some True),
          (Some ''view_agenda'', Some True, Some True),
          (Some ''events'', Some False, Some False),
          (Some ''agenda'', Some False, Some True)] \<and>
       map (\<lambda>p. (id_at p s0, selected_at p s0, shown_at p s0))
           [[1, 0, 0], [1, 0, 1], [1, 1], [1, 2]] =
         [(Some ''add-events'', Some False, Some True),
          (Some ''view_agenda'', Some True, Some True),
          (Some ''events'', Some False, Some False),
          (Some ''agenda'', Some False, Some True)] \<and>
       map (\<lambda>p. (id_at p s1, selected_at p s1, shown_at p s1))
           [[1, 0, 0], [1, 0, 1], [1, 1], [1, 2]] =
         [(Some ''add-events'', Some True, Some True),
          (Some ''view_agenda'', Some False, Some True),
          (Some ''events'', Some False, Some True),
          (Some ''agenda'', Some False, Some False)] \<and>
       find_id ''agenda'' (dom s1) = Some [1, 1, 0, 0, 0] \<and>
       map (\<lambda>p. (id_at p s2, selected_at p s2, shown_at p s2))
           [[1, 0, 0], [1, 0, 1], [1, 1], [1, 2]] =
         [(Some ''add-events'', Some False, Some True),
          (Some ''view_agenda'', Some True, Some True),
          (Some ''events'', Some False, Some False),
          (Some ''agenda'', Some False, Some False)])"
  by code_simp

section \<open>The detected events\<close>

lemma detectedEventsCallback_nothing:
  "detectedEventsCallback env None s = s" "detectedEventsCallback env (Some []) s = s"
  by (simp_all add: detectedEventsCallback_def)

text \<open>
  Claim C10: a missing or empty answer leaves the document unchanged (the lemma above),
  and for every non-empty list \<^verbatim>\<open>showDetectedEvents_\<close> appends the container
  \<^verbatim>\<open>events_list\<close>, one anchor per event, linking to the event's \<^verbatim>\<open>gcal_url\<close> and labelled
  with its title, and switches to the tab of the detected events. For an event with the
  title \<^verbatim>\<open><b id="add-events"></b>\<close> the container and the anchor are appended, but the
  anchor's content is the element that \<^verbatim>\<open>.html\<close> made of the title, with no text in it: on
  the example page, where the tab is switched, and on a page whose panes come before the
  tab strip. On that page \<^verbatim>\<open>$('#add-events')\<close> is the element of the title, no handler is
  bound on it or above it, and \<^verbatim>\<open>$('#add-events').click()\<close> changes nothing: the agenda tab
  at \<^verbatim>\<open>[1, 2, 1]\<close> stays selected and the pane of the detected events at \<^verbatim>\<open>[1, 0]\<close> stays
  hidden.
\<close>

theorem tab_not_switched_for_markup_title:
  "(let button =
          Element
            (attr_set ''target'' (Some ''_blank'')
              (attr_set ''title'' (Some ''msg:add_to_google_calendar'')
                (attr_set ''href'' (gcal_url tab_title_event)
                  (addClass ''single-event'' (create ''A'')))))
            [Element ((create ''B'')\<lparr>ident := Some ''add-events''\<rparr>) []];
        t0 = state_of (initialize demo_env demo_popup);
        t1 = run demo_env [DetectedEvents (Some [tab_title_event])] t0;
        s0 = state_of (initialize demo_env panes_first_popup);
        s1 = run demo_env [DetectedEvents (Some [tab_title_event])] s0
    in children_at [1, 1] (dom t1) =
         [Element ((create ''DIV'')\<lparr>ident := Some ''events_list''\<rparr>) [button]] \<and>
       map (\<lambda>p. (id_at p t1, selected_at p t1, shown_at p t1))
           [[1, 0, 0], [1, 0, 1], [1, 1], [1, 2]] =
         [(Some ''add-events'', Some True, Some True),
          (Some ''view_agenda'', Some False, Some True),
          (Some ''events'', Some False, Some True),
          (Some ''agenda'', Some False, Some False)] \<and>
       map (\<lambda>p. (id_at p s0, selected_at p s0, shown_at p s0))
           [[1, 2, 0], [1, 2, 1], [1, 0], [1, 1]] =
         [(Some ''add-events'', Some False, Some True),
          (Some ''view_agenda'', Some True, Some True),
          (Some ''events'', Some False, Some False),
          (Some ''agenda'', Some False, Some True)] \<and>
       children_at [1, 0] (dom s1) =
         [Element ((create ''DIV'')\<lparr>ident := Some ''events_list''\<rparr>) [button]] \<and>
       find_id ''add-events'' (dom s1) = Some [1, 0, 0, 0, 0] \<and>
       map (\<lambda>p. (id_at p s1, selected_at p s1, shown_at p s1))
           [[1, 2, 0], [1, 2, 1], [1, 0], [1, 1]] =
         [(Some ''add-events'', Some False, Some True),
          (Some ''view_agenda'', Some True, Some True),
          (Some ''events'', Some False, Some False),
          (Some ''agenda'', Some False, Some True)])"
  by code_simp

end
